theory Spec2Isabelle
  imports Complex_Main "HOL-Library.Sublist" "HOL-Library.AList"
begin

section \<open>Python values, strings and dictionaries\<close>

text \<open>
  The hooks pass \<open>Dict[str, Any]\<close> values around (request params, request context,
  server metadata). A dictionary is an association list: \<open>map_of\<close> is \<open>d.get(k)\<close>,
  \<open>AList.update\<close> is \<open>d[k] = v\<close> (an existing key keeps its place, a new key goes
  last, as in Python), and \<open>d = []\<close> is the falsy empty dictionary.
  Strings are \<open>string\<close>: code points below 256. A finite float is carried by its
  exact value, a rational; floating-point arithmetic is not modelled, and the float
  operations the code can reach are parameters (\<open>float_ops\<close> below).
\<close>

datatype pyval =
    PNone
  | PBool bool
  | PInt int
  | PFloat rat
  | PStr string
  | PList "pyval list"
  | PDict "(string \<times> pyval) list"

type_synonym pydict = "(string \<times> pyval) list"

fun truthy :: "pyval \<Rightarrow> bool" where
  "truthy PNone = False"
| "truthy (PBool b) = b"
| "truthy (PInt i) = (i \<noteq> 0)"
| "truthy (PFloat q) = (q \<noteq> 0)"
| "truthy (PStr s) = (s \<noteq> [])"
| "truthy (PList xs) = (xs \<noteq> [])"
| "truthy (PDict d) = (d \<noteq> [])"

text \<open>
  The numbers among the values: \<open>bool\<close> is a subclass of \<open>int\<close> in Python, so
  \<open>True\<close> counts as 1 and \<open>False\<close> as 0. Ordering or adding any other value and an
  integer raises \<open>TypeError\<close>.
\<close>

datatype number = NInt int | NFloat rat

fun as_number :: "pyval \<Rightarrow> number option" where
  "as_number (PInt i) = Some (NInt i)"
| "as_number (PBool b) = Some (NInt (if b then 1 else 0))"
| "as_number (PFloat q) = Some (NFloat q)"
| "as_number PNone = None"
| "as_number (PStr s) = None"
| "as_number (PList xs) = None"
| "as_number (PDict d) = None"

text \<open>\<open>d.get(k, default)\<close>.\<close>

definition dict_get :: "pydict \<Rightarrow> string \<Rightarrow> pyval \<Rightarrow> pyval" where
  "dict_get d k dflt = (case map_of d k of None \<Rightarrow> dflt | Some v \<Rightarrow> v)"

text \<open>
  \<open>str.lower()\<close> on code points below 256: the ASCII capitals and the Latin-1 capitals
  (\<open>0xC0\<close> to \<open>0xDE\<close> without the multiplication sign \<open>0xD7\<close>) move up by 32.
\<close>

definition lower_char :: "char \<Rightarrow> char" where
  "lower_char c =
     (let n = (of_char c :: nat)
      in if (65 \<le> n \<and> n \<le> 90) \<or> (192 \<le> n \<and> n \<le> 222 \<and> n \<noteq> 215)
         then char_of (n + 32) else c)"

definition lower :: "string \<Rightarrow> string" where
  "lower s = map lower_char s"

text \<open>
  Whitespace as Python's \<open>\s\<close> sees it on \<open>str\<close> patterns, below 256: tab to carriage
  return, the four separators \<open>0x1C\<close> to \<open>0x1F\<close>, the space, \<open>0x85\<close> and \<open>0xA0\<close>.
\<close>

definition is_space :: "char \<Rightarrow> bool" where
  "is_space c =
     (let n = (of_char c :: nat)
      in (9 \<le> n \<and> n \<le> 13) \<or> (28 \<le> n \<and> n \<le> 32) \<or> n = 133 \<or> n = 160)"

section \<open>Data model\<close>

datatype status = ACTIVE | INACTIVE | ERROR | PENDING

text \<open>
  \<open>MCPServer\<close>, with the fields that the hooks modelled here read or write.
  \<open>srv_id\<close> is the id as the f-strings of the cache keys print it.
\<close>

record server =
  srv_id :: string
  srv_name :: string
  srv_type :: string
  srv_endpoint :: string
  srv_status :: status
  srv_metadata :: pydict
  srv_is_active :: bool

text \<open>\<open>MCPRequest\<close> and \<open>MCPResponse\<close> of \<open>provider/base.py\<close>.\<close>

record request =
  req_method :: string
  req_params :: pydict
  req_context :: "pydict option"

record response =
  resp_success :: bool
  resp_data :: pyval
  resp_error :: "string option"
  resp_metadata :: "pydict option"

datatype error =
    ValueError string
  | TypeError
  | AttributeError
  | ZeroDivisionError
  | OverflowError

text \<open>
  Floating-point arithmetic, as far as the error handler can reach it: \<open>float_add_one q\<close>
  is the value of \<open>q + 1\<close> for a float \<open>q\<close>, and \<open>float_pow b x\<close> is the outcome of
  \<open>b ** x\<close> for an integer \<open>b\<close> and a float \<open>x\<close>, which is also how Python computes
  \<open>b ** e\<close> for a negative integer \<open>e\<close> and \<open>b\<close> other than 0 (with \<open>x = float(e)\<close>).
  Both are parameters of the model.
\<close>

record float_ops =
  float_add_one :: "rat \<Rightarrow> pyval"
  float_pow :: "int \<Rightarrow> rat \<Rightarrow> error + pyval"

text \<open>The tunables read with \<open>getattr(settings, ...)\<close>, and their defaults.\<close>

record settings =
  MCP_MAX_RETRIES :: int
  MCP_BACKOFF_FACTOR :: int
  MCP_ERROR_THRESHOLD :: int
  MCP_ERROR_WINDOW :: int
  MCP_CONNECT_RATE_LIMIT :: int
  MCP_CONNECT_RATE_WINDOW :: int
  MCP_REQUEST_RATE_LIMIT :: int
  MCP_REQUEST_RATE_WINDOW :: int
  MCP_DEFAULT_REQUEST_TIMEOUT :: pyval
  MCP_BLOCKED_METHODS :: "string list"
  MCP_ALLOWED_DOMAINS :: "string list"
  MCP_BLOCKED_DOMAINS :: "string list"

definition default_settings :: settings where
  "default_settings =
     \<lparr>MCP_MAX_RETRIES = 3, MCP_BACKOFF_FACTOR = 2,
      MCP_ERROR_THRESHOLD = 10, MCP_ERROR_WINDOW = 300,
      MCP_CONNECT_RATE_LIMIT = 10, MCP_CONNECT_RATE_WINDOW = 60,
      MCP_REQUEST_RATE_LIMIT = 100, MCP_REQUEST_RATE_WINDOW = 60,
      MCP_DEFAULT_REQUEST_TIMEOUT = PInt 30, MCP_BLOCKED_METHODS = [],
      MCP_ALLOWED_DOMAINS = [], MCP_BLOCKED_DOMAINS = []\<rparr>"

section \<open>The shared cache\<close>

text \<open>
  Django's cache, as far as the counters use it: a key holds an integer count and the
  time at which the entry expires. \<open>cache.set(key, v, timeout=w)\<close> at time \<open>now\<close> writes
  \<open>v\<close> with expiry \<open>now + w\<close>; \<open>cache.get(key, d)\<close> at time \<open>now\<close> returns the stored
  count while \<open>now\<close> is before the expiry, and \<open>d\<close> otherwise. Time is in seconds.
\<close>

type_synonym cache = "string \<Rightarrow> (int \<times> int) option"

definition cache_get :: "cache \<Rightarrow> int \<Rightarrow> string \<Rightarrow> int \<Rightarrow> int" where
  "cache_get c now k d =
     (case c k of None \<Rightarrow> d | Some (v, expiry) \<Rightarrow> if now < expiry then v else d)"

definition cache_set :: "cache \<Rightarrow> int \<Rightarrow> string \<Rightarrow> int \<Rightarrow> int \<Rightarrow> cache" where
  "cache_set c now k v timeout = c(k \<mapsto> (v, now + timeout))"

section \<open>Error handler and circuit breaker (hooks/post_processing.py)\<close>

definition retryable_patterns :: "string list" where
  "retryable_patterns =
     [''timeout'', ''connection reset'', ''temporary failure'', ''rate limit'',
      ''503'', ''502'', ''504'']"

text \<open>\<open>ErrorHandler._is_retryable_error\<close>; \<open>p in s\<close> on strings is \<open>sublist p s\<close>.\<close>

definition is_retryable_error :: "string option \<Rightarrow> bool" where
  "is_retryable_error err =
     (case err of
        None \<Rightarrow> False
      | Some e \<Rightarrow>
          if e = [] then False
          else list_ex (\<lambda>pattern. sublist pattern (lower e)) retryable_patterns)"

text \<open>
  \<open>ErrorHandler._check_circuit_breaker\<close>. \<open>now\<close> is the cache's clock and \<open>now_iso\<close> is
  \<open>datetime.now().isoformat()\<close>. Saving the record is the persistence layer's work and
  leaves the values modelled here as they are.
\<close>

definition check_circuit_breaker ::
  "settings \<Rightarrow> int \<Rightarrow> string \<Rightarrow> cache \<Rightarrow> server \<Rightarrow> cache \<times> server" where
  "check_circuit_breaker cfg now now_iso c srv =
     (let error_threshold = MCP_ERROR_THRESHOLD cfg;
          error_window = MCP_ERROR_WINDOW cfg;
          error_key = ''mcp_circuit_breaker:'' @ srv_id srv;
          error_count = cache_get c now error_key 0 + 1;
          c' = cache_set c now error_key error_count error_window
      in if error_count \<ge> error_threshold
         then (c', srv\<lparr>srv_status := ERROR,
                       srv_metadata :=
                         AList.update ''circuit_breaker_triggered'' (PStr now_iso)
                           (srv_metadata srv)\<rparr>)
         else (c', srv))"

text \<open>
  \<open>request.context.get("retry_count", 0) if request.context else 0\<close>: an absent and an
  empty context are both falsy.
\<close>

definition context_truthy :: "request \<Rightarrow> bool" where
  "context_truthy r = (case req_context r of None \<Rightarrow> False | Some d \<Rightarrow> d \<noteq> [])"

definition context_dict :: "request \<Rightarrow> pydict" where
  "context_dict r = (case req_context r of None \<Rightarrow> [] | Some d \<Rightarrow> d)"

definition retry_count_of :: "request \<Rightarrow> pyval" where
  "retry_count_of r =
     (if context_truthy r then dict_get (context_dict r) ''retry_count'' (PInt 0) else PInt 0)"

text \<open>\<open>retry_count < max_retries\<close> and \<open>retry_count + 1\<close> on a number.\<close>

fun py_less :: "number \<Rightarrow> int \<Rightarrow> bool" where
  "py_less (NInt i) m = (i < m)"
| "py_less (NFloat q) m = (q < of_int m)"

fun py_add_one :: "float_ops \<Rightarrow> number \<Rightarrow> pyval" where
  "py_add_one fl (NInt i) = PInt (i + 1)"
| "py_add_one fl (NFloat q) = float_add_one fl q"

text \<open>
  \<open>backoff_factor ** retry_count\<close>. An integer to a non-negative integer power is an
  integer. A negative integer exponent leaves the integers: Python raises
  \<open>ZeroDivisionError\<close> for base 0 and computes the float power otherwise.
\<close>

fun py_pow :: "float_ops \<Rightarrow> int \<Rightarrow> number \<Rightarrow> error + pyval" where
  "py_pow fl b (NInt e) =
     (if 0 \<le> e then Inr (PInt (b ^ nat e))
      else if b = 0 then Inl ZeroDivisionError
      else float_pow fl b (of_int e))"
| "py_pow fl b (NFloat x) = float_pow fl b x"

text \<open>
  The retry branch of \<open>handle_error\<close>: the body of \<open>if self._is_retryable_error(...)\<close>.
  A retry count that is no number raises \<open>TypeError\<close> at the comparison, before anything
  is written. When the power raises, \<open>retry_count\<close> and \<open>should_retry\<close> have been
  written already: an exception comes with the request as it is at that point.
\<close>

definition retry_branch ::
  "float_ops \<Rightarrow> settings \<Rightarrow> request \<Rightarrow> (error \<times> request) + request" where
  "retry_branch fl cfg r =
     (case as_number (retry_count_of r) of
        None \<Rightarrow> Inl (TypeError, r)
      | Some retry_count \<Rightarrow>
          if py_less retry_count (MCP_MAX_RETRIES cfg) then
            (let ctx0 = (if context_truthy r then context_dict r else []);
                 ctx1 = AList.update ''retry_count'' (py_add_one fl retry_count) ctx0;
                 ctx2 = AList.update ''should_retry'' (PBool True) ctx1
             in case py_pow fl (MCP_BACKOFF_FACTOR cfg) retry_count of
                  Inl e \<Rightarrow> Inl (e, r\<lparr>req_context := Some ctx2\<rparr>)
                | Inr backoff_delay \<Rightarrow>
                    Inr (r\<lparr>req_context :=
                              Some (AList.update ''retry_delay'' backoff_delay ctx2)\<rparr>))
          else Inr r)"

text \<open>
  \<open>ErrorHandler.handle_error\<close>. The request's context, the cache and the server are
  mutated in place by the source; the model returns all of them with the response. An
  exception can only come from the retry branch, before the cache and the server are
  touched: it is returned with the request as the handler leaves it.
\<close>

definition handle_error ::
  "float_ops \<Rightarrow> settings \<Rightarrow> int \<Rightarrow> string \<Rightarrow> cache \<Rightarrow> server \<Rightarrow> request \<Rightarrow> response
     \<Rightarrow> (error \<times> request) + (cache \<times> server \<times> request \<times> response)" where
  "handle_error fl cfg now now_iso c srv r resp =
     (case (if is_retryable_error (resp_error resp) then retry_branch fl cfg r else Inr r) of
        Inl e \<Rightarrow> Inl e
      | Inr r' \<Rightarrow>
          if \<not> context_truthy r'
             \<or> \<not> truthy (dict_get (context_dict r') ''should_retry'' PNone)
          then (case check_circuit_breaker cfg now now_iso c srv of
                  (c', srv') \<Rightarrow> Inr (c', srv', r', resp))
          else Inr (c, srv, r', resp))"

text \<open>The context that the retry branch writes for retry count \<open>n\<close>.\<close>

definition retry_context :: "settings \<Rightarrow> request \<Rightarrow> nat \<Rightarrow> pydict" where
  "retry_context cfg r n =
     AList.update ''retry_delay'' (PInt (MCP_BACKOFF_FACTOR cfg ^ n))
       (AList.update ''should_retry'' (PBool True)
         (AList.update ''retry_count'' (PInt (int n + 1)) (context_dict r)))"

subsection \<open>Vocabulary of the statements about the error handler\<close>

text \<open>A string contains a pattern case-insensitively: compare the lower-cased strings.\<close>

definition contains_ci :: "string \<Rightarrow> string \<Rightarrow> bool" where
  "contains_ci pat s = sublist (lower pat) (lower s)"

text \<open>The key of a backend's error-window counter.\<close>

definition cb_key :: "server \<Rightarrow> string" where
  "cb_key srv = ''mcp_circuit_breaker:'' @ srv_id srv"

text \<open>
  Recording one error after the other: each entry is the time of a call of
  \<open>_check_circuit_breaker\<close> and the timestamp string it would stamp.
\<close>

fun record_errors ::
  "settings \<Rightarrow> (int \<times> string) list \<Rightarrow> cache \<Rightarrow> server \<Rightarrow> cache \<times> server" where
  "record_errors cfg [] c srv = (c, srv)"
| "record_errors cfg ((now, now_iso) # rest) c srv =
     (case check_circuit_breaker cfg now now_iso c srv of
        (c', srv') \<Rightarrow> record_errors cfg rest c' srv')"

text \<open>A key is absent from the cache, or its entry has expired, at time \<open>t\<close>.\<close>

definition fresh_at :: "cache \<Rightarrow> string \<Rightarrow> int \<Rightarrow> bool" where
  "fresh_at c k t = (case c k of None \<Rightarrow> True | Some (v, expiry) \<Rightarrow> expiry \<le> t)"

text \<open>The key is absent or expired when the first of the calls is made.\<close>

definition fresh_from :: "cache \<Rightarrow> string \<Rightarrow> int list \<Rightarrow> bool" where
  "fresh_from c k ts = (case ts of [] \<Rightarrow> True | t0 # _ \<Rightarrow> fresh_at c k t0)"

text \<open>
  The times are in order and all lie within one window of length \<open>w\<close> that opens at
  the first of them.
\<close>

definition within_window :: "int \<Rightarrow> int list \<Rightarrow> bool" where
  "within_window w ts =
     (case ts of [] \<Rightarrow> True | t0 # _ \<Rightarrow> sorted ts \<and> list_all (\<lambda>t. t < t0 + w) ts)"

section \<open>Rate limiter (hooks/pre_processing.py)\<close>

text \<open>\<open>RateLimiter.limits\<close>: per operation class, the maximum and the window.\<close>

definition limits :: "settings \<Rightarrow> (string \<times> (int \<times> int)) list" where
  "limits cfg =
     [(''connect'', (MCP_CONNECT_RATE_LIMIT cfg, MCP_CONNECT_RATE_WINDOW cfg)),
      (''request'', (MCP_REQUEST_RATE_LIMIT cfg, MCP_REQUEST_RATE_WINDOW cfg))]"

definition rate_key :: "server \<Rightarrow> string \<Rightarrow> string" where
  "rate_key srv operation = ''mcp_rate_limit:'' @ srv_id srv @ '':'' @ operation"

text \<open>\<open>RateLimiter.check_limit\<close>: the answer and the cache after the call.\<close>

definition check_limit ::
  "settings \<Rightarrow> int \<Rightarrow> cache \<Rightarrow> server \<Rightarrow> string \<Rightarrow> bool \<times> cache" where
  "check_limit cfg now c srv operation =
     (case map_of (limits cfg) operation of
        None \<Rightarrow> (True, c)
      | Some (requests, window) \<Rightarrow>
          (let cache_key = rate_key srv operation;
               current_count = cache_get c now cache_key 0
           in if current_count \<ge> requests then (False, c)
              else (True, cache_set c now cache_key (current_count + 1) window)))"

text \<open>One \<open>check_limit\<close> call after the other, at the given times.\<close>

fun check_limits ::
  "settings \<Rightarrow> int list \<Rightarrow> cache \<Rightarrow> server \<Rightarrow> string \<Rightarrow> bool list \<times> cache" where
  "check_limits cfg [] c srv operation = ([], c)"
| "check_limits cfg (now # rest) c srv operation =
     (case check_limit cfg now c srv operation of
        (allowed, c') \<Rightarrow>
          (case check_limits cfg rest c' srv operation of
             (answers, c'') \<Rightarrow> (allowed # answers, c'')))"

section \<open>Request transformer (hooks/pre_processing.py)\<close>

text \<open>
  The transforms mutate \<open>request.params\<close> in place and return the request. The second
  argument is the \<open>context\<close> parameter of the call; \<open>context and "user_id" in context\<close>
  holds exactly when the dictionary is there and has the key.
\<close>

definition transform_claude_request :: "request \<Rightarrow> pydict option \<Rightarrow> request" where
  "transform_claude_request r context =
     (case context of
        None \<Rightarrow> r
      | Some ctx \<Rightarrow>
          (case map_of ctx ''user_id'' of
             None \<Rightarrow> r
           | Some user_id \<Rightarrow>
               r\<lparr>req_params :=
                    AList.update ''user_context''
                      (PDict [(''user_id'', user_id),
                              (''session_id'', dict_get ctx ''session_id'' PNone)])
                      (req_params r)\<rparr>))"

definition transform_github_request :: "request \<Rightarrow> pydict option \<Rightarrow> request" where
  "transform_github_request r context =
     (if req_method r = ''search_code'' then
        (let p1 = AList.update ''per_page'' (dict_get (req_params r) ''per_page'' (PInt 30))
                    (req_params r);
             p2 = AList.update ''sort'' (dict_get p1 ''sort'' (PStr ''best-match'')) p1
         in r\<lparr>req_params := p2\<rparr>)
      else r)"

definition apply_default_transformations ::
  "settings \<Rightarrow> request \<Rightarrow> pydict option \<Rightarrow> request" where
  "apply_default_transformations cfg r context =
     (if map_of (req_params r) ''timeout'' = None
      then r\<lparr>req_params :=
                AList.update ''timeout'' (MCP_DEFAULT_REQUEST_TIMEOUT cfg) (req_params r)\<rparr>
      else r)"

text \<open>\<open>RequestTransformer.transform\<close>.\<close>

definition transform :: "settings \<Rightarrow> server \<Rightarrow> request \<Rightarrow> pydict option \<Rightarrow> request" where
  "transform cfg srv r context =
     (if srv_type srv = ''claude'' then transform_claude_request r context
      else if srv_type srv = ''github'' then transform_github_request r context
      else apply_default_transformations cfg r context)"

section \<open>Security checker (hooks/pre_processing.py)\<close>

definition sensitive_param_patterns :: "string list" where
  "sensitive_param_patterns = [''password'', ''secret'', ''token'', ''key'', ''credential'']"

definition sql_patterns :: "string list" where
  "sql_patterns = [CHR 0x27 # ''; DROP TABLE'', CHR 0x27 # '' OR '1'='1'', ''UNION SELECT'', ''/*!'']"

text \<open>
  \<open>SecurityChecker._check_injection_attacks\<close>. \<open>str(params)\<close> is Python's \<open>repr\<close> of the
  dictionary, a parameter here.
\<close>

definition check_injection_attacks :: "(pydict \<Rightarrow> string) \<Rightarrow> pydict \<Rightarrow> string list" where
  "check_injection_attacks py_str params =
     (let params_str = lower (py_str params)
      in concat (map (\<lambda>pattern.
                   if sublist (lower pattern) params_str
                   then [''Potential SQL injection detected: '' @ pattern] else [])
                 sql_patterns))"

text \<open>
  The issues one entry raises by its key: one per pattern that occurs in the lower-cased
  key, when the value is truthy.
\<close>

definition key_issues :: "string \<Rightarrow> pyval \<Rightarrow> string \<Rightarrow> string list" where
  "key_issues key val current_path =
     concat (map (\<lambda>pattern.
               if sublist pattern (lower key) \<and> truthy val
               then [''Potential sensitive data in parameter: '' @ current_path] else [])
             sensitive_param_patterns)"

text \<open>
  The nested \<open>check_dict\<close> of \<open>_check_sensitive_data\<close>: \<open>check_dict d path\<close> walks the
  items of \<open>d\<close> in order and descends into every value that is a dictionary.
\<close>

fun check_dict :: "pydict \<Rightarrow> string \<Rightarrow> string list"
  and check_nested :: "pyval \<Rightarrow> string \<Rightarrow> string list" where
  "check_dict [] path = []"
| "check_dict ((key, val) # rest) path =
     (let current_path = (if path \<noteq> [] then path @ ''.'' @ key else key)
      in key_issues key val current_path @ check_nested val current_path
         @ check_dict rest path)"
| "check_nested (PDict d) path = check_dict d path"
| "check_nested PNone path = []"
| "check_nested (PBool b) path = []"
| "check_nested (PInt i) path = []"
| "check_nested (PFloat q) path = []"
| "check_nested (PStr s) path = []"
| "check_nested (PList xs) path = []"

definition check_sensitive_data :: "pydict \<Rightarrow> string list" where
  "check_sensitive_data params = check_dict params []"

text \<open>\<open>SecurityChecker.check_request\<close>.\<close>

definition check_request :: "settings \<Rightarrow> (pydict \<Rightarrow> string) \<Rightarrow> request \<Rightarrow> string list" where
  "check_request cfg py_str r =
     (if req_method r \<in> set (MCP_BLOCKED_METHODS cfg)
      then [''Method '' @ [CHR 0x27] @ req_method r @ [CHR 0x27] @ '' is blocked''] else [])
     @ check_injection_attacks py_str (req_params r)
     @ check_sensitive_data (req_params r)"

text \<open>\<open>sep.join(xs)\<close>.\<close>

fun join :: "string \<Rightarrow> string list \<Rightarrow> string" where
  "join sep [] = []"
| "join sep [x] = x"
| "join sep (x # y # ys) = x @ sep @ join sep (y # ys)"

text \<open>
  \<open>MCPPreProcessingHooks.pre_request\<close>. \<open>request_id\<close> is the fresh \<open>uuid4\<close> and
  \<open>timestamp\<close> is \<open>time.time()\<close>. The cache outlives a raised exception, so it is
  returned beside the outcome.
\<close>

definition pre_request ::
  "settings \<Rightarrow> (pydict \<Rightarrow> string) \<Rightarrow> int \<Rightarrow> string \<Rightarrow> pyval \<Rightarrow> cache \<Rightarrow> server \<Rightarrow> request
     \<Rightarrow> pydict option \<Rightarrow> (error + request) \<times> cache" where
  "pre_request cfg py_str now request_id timestamp c srv r context =
     (case check_limit cfg now c srv ''request'' of
        (allowed, c') \<Rightarrow>
          if \<not> allowed then (Inl (ValueError ''Request rate limit exceeded''), c')
          else
            (let security_issues = check_request cfg py_str r
             in if security_issues \<noteq> []
                then (Inl (ValueError (''Security check failed: ''
                                         @ join '', '' security_issues)), c')
                else
                  (let transformed_request = transform cfg srv r context;
                       ctx0 = (case req_context transformed_request of
                                 None \<Rightarrow> [] | Some d \<Rightarrow> d);
                       ctx1 = AList.update ''request_id'' (PStr request_id) ctx0;
                       ctx2 = AList.update ''timestamp'' timestamp ctx1
                   in (Inr (transformed_request\<lparr>req_context := Some ctx2\<rparr>), c'))))"

subsection \<open>Vocabulary of the statement about sensitive parameters\<close>

text \<open>
  A key is sensitive when it contains one of the patterns case-insensitively. A
  dictionary is sensitive when one of its entries has a sensitive key and a truthy
  value, or a value that is a sensitive dictionary, at any depth.
\<close>

definition key_sensitive :: "string \<Rightarrow> bool" where
  "key_sensitive key = list_ex (\<lambda>pattern. contains_ci pattern key) sensitive_param_patterns"

fun sensitive_dict :: "pydict \<Rightarrow> bool"
  and sensitive_nested :: "pyval \<Rightarrow> bool" where
  "sensitive_dict [] = False"
| "sensitive_dict ((key, val) # rest) =
     ((key_sensitive key \<and> truthy val) \<or> sensitive_nested val \<or> sensitive_dict rest)"
| "sensitive_nested (PDict d) = sensitive_dict d"
| "sensitive_nested PNone = False"
| "sensitive_nested (PBool b) = False"
| "sensitive_nested (PInt i) = False"
| "sensitive_nested (PFloat q) = False"
| "sensitive_nested (PStr s) = False"
| "sensitive_nested (PList xs) = False"

section \<open>Response transformer (hooks/post_processing.py)\<close>

text \<open>\<open>response.metadata or {}\<close>.\<close>

definition metadata_or_empty :: "response \<Rightarrow> pydict" where
  "metadata_or_empty resp = (case resp_metadata resp of None \<Rightarrow> [] | Some m \<Rightarrow> m)"

text \<open>
  \<open>ResponseTransformer._transform_claude_response\<close>. \<open>"usage" in response.data\<close> is key
  membership on a dictionary, element membership on a list and substring search on a
  string; on a number it raises \<open>TypeError\<close>, and so does \<open>response.data["usage"]\<close> on a
  list or a string.
\<close>

definition transform_claude_response :: "response \<Rightarrow> pydict option \<Rightarrow> error + response" where
  "transform_claude_response resp context =
     (if resp_success resp \<and> truthy (resp_data resp) then
        (case resp_data resp of
           PDict d \<Rightarrow>
             (case map_of d ''usage'' of
                None \<Rightarrow> Inr resp
              | Some usage \<Rightarrow>
                  Inr (resp\<lparr>resp_metadata :=
                              Some (AList.update ''usage'' usage (metadata_or_empty resp))\<rparr>))
         | PList xs \<Rightarrow> if PStr ''usage'' \<in> set xs then Inl TypeError else Inr resp
         | PStr s \<Rightarrow> if sublist ''usage'' s then Inl TypeError else Inr resp
         | PInt i \<Rightarrow> Inl TypeError
         | PFloat q \<Rightarrow> Inl TypeError
         | PBool b \<Rightarrow> Inl TypeError
         | PNone \<Rightarrow> Inr resp)
      else Inr resp)"

text \<open>
  \<open>ResponseTransformer._transform_github_response\<close>. \<open>headers.get\<close> exists on a
  dictionary only: any other value under \<open>"headers"\<close> raises \<open>AttributeError\<close>.
\<close>

definition transform_github_response :: "response \<Rightarrow> pydict option \<Rightarrow> error + response" where
  "transform_github_response resp context =
     (if resp_success resp \<and> truthy (resp_data resp) then
        (case resp_metadata resp of
           None \<Rightarrow> Inr resp
         | Some m \<Rightarrow>
             (case map_of m ''headers'' of
                None \<Rightarrow> Inr resp
              | Some (PDict headers) \<Rightarrow>
                  Inr (resp\<lparr>resp_metadata :=
                              Some (AList.update ''rate_limit''
                                      (PDict [(''limit'', dict_get headers ''X-RateLimit-Limit'' PNone),
                                              (''remaining'',
                                               dict_get headers ''X-RateLimit-Remaining'' PNone),
                                              (''reset'', dict_get headers ''X-RateLimit-Reset'' PNone)])
                                      m)\<rparr>)
              | Some _ \<Rightarrow> Inl AttributeError))
      else Inr resp)"

text \<open>
  \<open>re.sub(lit + r"[^\s]+", "[REDACTED]", s, flags=re.IGNORECASE)\<close> for a lower-case
  literal \<open>lit\<close>: scanning from the left, a match starts where the literal stands
  (compared case-insensitively) with at least one non-whitespace character after it,
  and takes all the non-whitespace characters that follow; the search goes on behind the
  match.
\<close>

function redact :: "string \<Rightarrow> string \<Rightarrow> string" where
  "redact lit [] = []"
| "redact lit (c # cs) =
     (if lower (take (length lit) (c # cs)) = lit
         \<and> drop (length lit) (c # cs) \<noteq> []
         \<and> \<not> is_space (hd (drop (length lit) (c # cs)))
      then ''[REDACTED]''
             @ redact lit (dropWhile (\<lambda>x. \<not> is_space x) (drop (length lit) (c # cs)))
      else c # redact lit cs)"
  by pat_completeness auto
termination
proof (relation "measure (\<lambda>(lit, s). length s)")
  show "wf (measure (\<lambda>(lit, s). length s))" by simp
next
  fix lit :: string and c :: char and cs :: string
  assume a: "lower (take (length lit) (c # cs)) = lit
         \<and> drop (length lit) (c # cs) \<noteq> []
         \<and> \<not> is_space (hd (drop (length lit) (c # cs)))"
  let ?rest = "drop (length lit) (c # cs)"
  from a obtain x xs where r: "?rest = x # xs" and x: "\<not> is_space x"
    by (cases ?rest) auto
  have "length (dropWhile (\<lambda>x. \<not> is_space x) ?rest) \<le> length xs"
    using r x by (simp add: length_dropWhile_le)
  moreover have "length xs < length ?rest" using r by simp
  moreover have "length ?rest \<le> length (c # cs)" by simp
  ultimately have "length (dropWhile (\<lambda>x. \<not> is_space x) ?rest) < length (c # cs)"
    by linarith
  then show "((lit, dropWhile (\<lambda>x. \<not> is_space x) ?rest), (lit, c # cs))
               \<in> measure (\<lambda>(lit, s). length s)"
    by simp
next
  fix lit :: string and c :: char and cs :: string
  show "((lit, cs), (lit, c # cs)) \<in> measure (\<lambda>(lit, s). length s)" by simp
qed

text \<open>\<open>ResponseTransformer._sanitize_error_message\<close>: the three patterns in order.\<close>

definition sanitize_error_message :: "string \<Rightarrow> string" where
  "sanitize_error_message err =
     redact ''password='' (redact ''api_key='' (redact ''token='' err))"

text \<open>
  \<open>ResponseTransformer._apply_default_transformations\<close>; \<open>now_iso\<close> is
  \<open>datetime.now().isoformat()\<close>.
\<close>

definition response_apply_default_transformations ::
  "string \<Rightarrow> response \<Rightarrow> pydict option \<Rightarrow> error + response" where
  "response_apply_default_transformations now_iso resp context =
     (let md = AList.update ''processed_at'' (PStr now_iso) (metadata_or_empty resp);
          err = (case resp_error resp of
                   None \<Rightarrow> None
                 | Some e \<Rightarrow> if e \<noteq> [] then Some (sanitize_error_message e) else Some e)
      in Inr (resp\<lparr>resp_metadata := Some md, resp_error := err\<rparr>))"

text \<open>\<open>ResponseTransformer.transform\<close>.\<close>

definition response_transform ::
  "string \<Rightarrow> server \<Rightarrow> response \<Rightarrow> pydict option \<Rightarrow> error + response" where
  "response_transform now_iso srv resp context =
     (if srv_type srv = ''claude'' then transform_claude_response resp context
      else if srv_type srv = ''github'' then transform_github_response resp context
      else response_apply_default_transformations now_iso resp context)"

section \<open>Validation hooks (hooks/validation.py)\<close>

text \<open>
  The character class \<open>[a-zA-Z0-9\s\-_]\<close>. With \<open>re.match\<close>, \<open>^[...]+$\<close> matches a
  string exactly when it is not empty and all its characters are in the class (the
  \<open>$\<close> may stand before a final newline, which is in the class already).
\<close>

definition name_char :: "char \<Rightarrow> bool" where
  "name_char c =
     (let n = (of_char c :: nat)
      in (97 \<le> n \<and> n \<le> 122) \<or> (65 \<le> n \<and> n \<le> 90) \<or> (48 \<le> n \<and> n \<le> 57)
         \<or> is_space c \<or> c = CHR ''-'' \<or> c = CHR ''_'')"

definition name_pattern_matches :: "string \<Rightarrow> bool" where
  "name_pattern_matches s = (s \<noteq> [] \<and> list_all name_char s)"

text \<open>\<open>MCPValidationHooks._validate_server_name\<close>.\<close>

definition validate_server_name :: "string \<Rightarrow> string list" where
  "validate_server_name name =
     (if name = [] then [''Server name is required'']
      else (if length name < 3 then [''Server name must be at least 3 characters''] else [])
         @ (if length name > 255 then [''Server name must not exceed 255 characters''] else [])
         @ (if \<not> name_pattern_matches name
            then [''Server name can only contain alphanumeric characters, ''
                  @ ''spaces, hyphens, and underscores'']
            else []))"

text \<open>
  What \<open>urlparse\<close> returns: the scheme and the netloc, which the validator reads, and
  the hostname (the host without userinfo and port, lower-cased), which it does not.
  \<open>urlparse\<close> itself is the standard library's and a parameter here: \<open>Inl msg\<close> when it
  raises.
\<close>

record parsed_url =
  url_scheme :: string
  url_netloc :: string
  url_hostname :: string

text \<open>
  \<open>MCPValidationHooks._validate_endpoint\<close>; \<open>s.endswith(d)\<close> is \<open>suffix d s\<close>. Only
  \<open>urlparse\<close> can raise inside the \<open>try\<close>, before any error has been collected.
\<close>

definition validate_endpoint ::
  "(string \<Rightarrow> string + parsed_url) \<Rightarrow> settings \<Rightarrow> string \<Rightarrow> string list" where
  "validate_endpoint urlparse cfg endpoint =
     (if endpoint = [] then [''Endpoint URL is required'']
      else
        (case urlparse endpoint of
           Inl e \<Rightarrow> [''Invalid endpoint URL: '' @ e]
         | Inr parsed \<Rightarrow>
             (if url_scheme parsed = []
              then [''Endpoint must include a scheme (http/https)''] else [])
           @ (if url_scheme parsed \<notin> set [''http'', ''https'', ''ws'', ''wss'']
              then [''Endpoint scheme must be http, https, ws, or wss''] else [])
           @ (if url_netloc parsed = []
              then [''Endpoint must include a valid host''] else [])
           @ (if MCP_ALLOWED_DOMAINS cfg \<noteq> []
                 \<and> \<not> list_ex (\<lambda>domain. suffix domain (url_netloc parsed))
                         (MCP_ALLOWED_DOMAINS cfg)
              then [''Endpoint domain not in allowed list: '' @ url_netloc parsed] else [])
           @ (if MCP_BLOCKED_DOMAINS cfg \<noteq> []
                 \<and> list_ex (\<lambda>domain. suffix domain (url_netloc parsed))
                       (MCP_BLOCKED_DOMAINS cfg)
              then [''Endpoint domain is blocked: '' @ url_netloc parsed] else [])))"

text \<open>
  \<open>MCPValidationHooks.validate_server_configuration\<close>. The validators of the
  configuration size, of the authentication and of the provider-specific fields return
  lists of problems as well; they are parameters here.
\<close>

definition validate_server_configuration ::
  "(string \<Rightarrow> string + parsed_url) \<Rightarrow> settings \<Rightarrow> (server \<Rightarrow> string list)
     \<Rightarrow> (server \<Rightarrow> string list) \<Rightarrow> (server \<Rightarrow> string list) \<Rightarrow> server
     \<Rightarrow> (string \<times> string list) list" where
  "validate_server_configuration urlparse cfg validate_configuration_size
       validate_authentication validate_provider_config srv =
     (let name_errors = validate_server_name (srv_name srv);
          errors1 = (if name_errors \<noteq> [] then AList.update ''name'' name_errors [] else []);
          endpoint_errors = validate_endpoint urlparse cfg (srv_endpoint srv);
          errors2 = (if endpoint_errors \<noteq> []
                     then AList.update ''endpoint'' endpoint_errors errors1 else errors1);
          config_errors = validate_configuration_size srv;
          errors3 = (if config_errors \<noteq> []
                     then AList.update ''configuration'' config_errors errors2 else errors2);
          auth_errors = validate_authentication srv;
          errors4 = (if auth_errors \<noteq> []
                     then AList.update ''authentication'' auth_errors errors3 else errors3)
      in if srv_type srv \<noteq> [] then
           (let provider_errors = validate_provider_config srv
            in if provider_errors \<noteq> []
               then AList.update ''provider'' provider_errors errors4 else errors4)
         else errors4)"

section \<open>Provider registry (registry.py)\<close>

text \<open>
  A provider class, as far as the registry looks at it: whether it is a subclass of
  \<open>BaseMCPProvider\<close>, which methods it defines itself (or inherits from elsewhere), and
  what its own \<open>get_name\<close>, \<open>get_description\<close> and \<open>get_version\<close> return.
\<close>

record provider_class =
  pc_subclass_of_base :: bool
  pc_defines :: "string list"
  pc_name :: pyval
  pc_description :: pyval
  pc_version :: pyval

text \<open>
  Calling a class method: the class's own when it defines one; otherwise the one of
  \<open>BaseMCPProvider\<close> (the abstract \<open>get_name\<close> and \<open>get_description\<close> have the body
  \<open>pass\<close> and return \<open>None\<close>; \<open>get_version\<close> returns \<open>"1.0.0"\<close>) when the class
  inherits from it; otherwise \<open>AttributeError\<close>.
\<close>

definition get_name :: "provider_class \<Rightarrow> error + pyval" where
  "get_name pc =
     (if ''get_name'' \<in> set (pc_defines pc) then Inr (pc_name pc)
      else if pc_subclass_of_base pc then Inr PNone else Inl AttributeError)"

definition get_description :: "provider_class \<Rightarrow> error + pyval" where
  "get_description pc =
     (if ''get_description'' \<in> set (pc_defines pc) then Inr (pc_description pc)
      else if pc_subclass_of_base pc then Inr PNone else Inl AttributeError)"

definition get_version :: "provider_class \<Rightarrow> error + pyval" where
  "get_version pc =
     (if ''get_version'' \<in> set (pc_defines pc) then Inr (pc_version pc)
      else if pc_subclass_of_base pc then Inr (PStr ''1.0.0'') else Inl AttributeError)"

text \<open>The class-level state of \<open>MCPServerRegistry\<close>.\<close>

record registry =
  providers :: "(string \<times> provider_class) list"
  initialized :: bool

text \<open>
  \<open>MCPServerRegistry.register_provider\<close>. The registry is class-level state and
  outlives a raised exception, so every operation returns it beside its outcome.
\<close>

definition register_provider ::
  "registry \<Rightarrow> string \<Rightarrow> provider_class \<Rightarrow> (error + unit) \<times> registry" where
  "register_provider reg name provider_class =
     (if \<not> pc_subclass_of_base provider_class
      then (Inl (ValueError (''Provider '' @ name @ '' must inherit from BaseMCPProvider'')), reg)
      else (Inr (), reg\<lparr>providers := AList.update name provider_class (providers reg)\<rparr>))"

definition builtin_providers :: "string list" where
  "builtin_providers =
     [''claude'', ''filesystem'', ''github'', ''slack'', ''postgres'', ''web_search'']"

text \<open>
  \<open>_load_builtin_providers\<close>. \<open>import_builtin name\<close> is the class that
  \<open>importlib.import_module\<close> and \<open>getattr\<close> find, \<open>None\<close> when they raise
  \<open>ImportError\<close> or \<open>AttributeError\<close> (logged and skipped). A \<open>ValueError\<close> of
  \<open>register_provider\<close> is not caught here.
\<close>

fun load_builtin_providers ::
  "(string \<Rightarrow> provider_class option) \<Rightarrow> string list \<Rightarrow> registry
     \<Rightarrow> (error + unit) \<times> registry" where
  "load_builtin_providers import_builtin [] reg = (Inr (), reg)"
| "load_builtin_providers import_builtin (provider_name # rest) reg =
     (case import_builtin provider_name of
        None \<Rightarrow> load_builtin_providers import_builtin rest reg
      | Some provider_class \<Rightarrow>
          (case register_provider reg provider_name provider_class of
             (Inl e, reg') \<Rightarrow> (Inl e, reg')
           | (Inr _, reg') \<Rightarrow> load_builtin_providers import_builtin rest reg'))"

text \<open>
  \<open>_load_custom_providers\<close>, over the entries of \<open>MCP_CUSTOM_PROVIDERS\<close> with the class
  each module yields (\<open>None\<close> when loading raises). Every exception is caught here, that
  of \<open>register_provider\<close> too.
\<close>

fun load_custom_providers ::
  "(string \<times> provider_class option) list \<Rightarrow> registry \<Rightarrow> registry" where
  "load_custom_providers [] reg = reg"
| "load_custom_providers ((provider_name, loaded) # rest) reg =
     (case loaded of
        None \<Rightarrow> load_custom_providers rest reg
      | Some provider_class \<Rightarrow>
          load_custom_providers rest (snd (register_provider reg provider_name provider_class)))"

text \<open>\<open>MCPServerRegistry.initialize\<close>.\<close>

definition initialize ::
  "(string \<Rightarrow> provider_class option) \<Rightarrow> (string \<times> provider_class option) list \<Rightarrow> registry
     \<Rightarrow> (error + unit) \<times> registry" where
  "initialize import_builtin custom reg =
     (if initialized reg then (Inr (), reg)
      else
        (case load_builtin_providers import_builtin builtin_providers reg of
           (Inl e, reg1) \<Rightarrow> (Inl e, reg1)
         | (Inr _, reg1) \<Rightarrow>
             (Inr (), (load_custom_providers custom reg1)\<lparr>initialized := True\<rparr>)))"

text \<open>The body of the loop of \<open>list_providers\<close>: one entry of the listing.\<close>

definition provider_info :: "provider_class \<Rightarrow> error + pydict" where
  "provider_info pc =
     (case get_name pc of
        Inl e \<Rightarrow> Inl e
      | Inr n \<Rightarrow>
          (case get_description pc of
             Inl e \<Rightarrow> Inl e
           | Inr d \<Rightarrow>
               (case get_version pc of
                  Inl e \<Rightarrow> Inl e
                | Inr v \<Rightarrow> Inr [(''name'', n), (''description'', d), (''version'', v)])))"

fun provider_infos ::
  "(string \<times> provider_class) list \<Rightarrow> (string \<times> pydict) list
     \<Rightarrow> error + (string \<times> pydict) list" where
  "provider_infos [] acc = Inr acc"
| "provider_infos ((name, pc) # rest) acc =
     (case provider_info pc of
        Inl e \<Rightarrow> Inl e
      | Inr info \<Rightarrow> provider_infos rest (AList.update name info acc))"

text \<open>\<open>MCPServerRegistry.list_providers\<close>.\<close>

definition list_providers ::
  "(string \<Rightarrow> provider_class option) \<Rightarrow> (string \<times> provider_class option) list \<Rightarrow> registry
     \<Rightarrow> (error + (string \<times> pydict) list) \<times> registry" where
  "list_providers import_builtin custom reg =
     (case (if \<not> initialized reg then initialize import_builtin custom reg else (Inr (), reg)) of
        (Inl e, reg') \<Rightarrow> (Inl e, reg')
      | (Inr _, reg') \<Rightarrow> (provider_infos (providers reg') [], reg'))"

subsection \<open>Vocabulary of the statement about the registry\<close>

text \<open>
  The Provider Contract: the abstract methods of \<open>BaseMCPProvider\<close>. A class implements
  it when it defines every one of them.
\<close>

definition provider_contract :: "string list" where
  "provider_contract =
     [''connect'', ''disconnect'', ''execute_request'', ''list_tools'', ''list_resources'',
      ''get_name'', ''get_description'', ''get_configuration_schema'']"

definition implements_contract :: "provider_class \<Rightarrow> bool" where
  "implements_contract pc = list_all (\<lambda>m. m \<in> set (pc_defines pc)) provider_contract"

text \<open>A backend record for the concrete instances.\<close>

definition example_server :: server where
  "example_server =
     \<lparr>srv_id = ''1'', srv_name = ''Test Server'', srv_type = ''generic'',
      srv_endpoint = ''https://api.example.com'', srv_status = ACTIVE,
      srv_metadata = [], srv_is_active = True\<rparr>"

text \<open>
  The request and the failed response of \<open>test_error_handler\<close>, the request with a
  given context.
\<close>

definition test_request :: "pydict option \<Rightarrow> request" where
  "test_request ctx = \<lparr>req_method = ''test'', req_params = [], req_context = ctx\<rparr>"

definition timeout_response :: response where
  "timeout_response =
     \<lparr>resp_success = False, resp_data = PNone, resp_error = Some ''Connection timeout'',
      resp_metadata = None\<rparr>"

text \<open>The context after the \<open>n\<close>-th retry that the handler asks for (default factor 2).\<close>

definition retried_context :: "nat \<Rightarrow> pydict" where
  "retried_context n =
     [(''retry_count'', PInt (int n)), (''should_retry'', PBool True),
      (''retry_delay'', PInt (2 ^ (n - 1)))]"

text \<open>
  Float operations for the concrete instances, none of which reaches them: exact
  addition, and the power for the exponent \<open>-1\<close> only.
\<close>

definition example_float_ops :: float_ops where
  "example_float_ops =
     \<lparr>float_add_one = (\<lambda>q. PFloat (q + 1)),
      float_pow = (\<lambda>b x. if x = - 1 \<and> b \<noteq> 0 then Inr (PFloat (1 / of_int b))
                        else Inl OverflowError)\<rparr>"

text \<open>
  What \<open>urlparse\<close> returns for \<open>https://badsite.com:8080/v1\<close>: the netloc carries the
  port, the hostname does not.
\<close>

definition urlparse_port :: "string \<Rightarrow> string + parsed_url" where
  "urlparse_port u =
     (if u = ''https://badsite.com:8080/v1''
      then Inr \<lparr>url_scheme = ''https'', url_netloc = ''badsite.com:8080'',
                url_hostname = ''badsite.com''\<rparr>
      else Inl ''not needed'')"

text \<open>Provider classes for the concrete instances.\<close>

definition incomplete_provider :: provider_class where
  "incomplete_provider =
     \<lparr>pc_subclass_of_base = True, pc_defines = [], pc_name = PNone,
      pc_description = PNone, pc_version = PNone\<rparr>"

definition invalid_provider :: provider_class where
  "invalid_provider =
     \<lparr>pc_subclass_of_base = False, pc_defines = [], pc_name = PNone,
      pc_description = PNone, pc_version = PNone\<rparr>"

definition mock_provider :: provider_class where
  "mock_provider =
     \<lparr>pc_subclass_of_base = True,
      pc_defines = [''get_name'', ''get_description'', ''get_configuration_schema'',
                    ''connect'', ''disconnect'', ''execute_request'', ''list_tools'',
                    ''list_resources''],
      pc_name = PStr ''Mock Provider'',
      pc_description = PStr ''A mock provider for testing'', pc_version = PNone\<rparr>"

section \<open>Properties of the error handler\<close>

lemma lower_patterns: "pattern \<in> set retryable_patterns \<Longrightarrow> lower pattern = pattern"
  by (auto simp: retryable_patterns_def lower_def lower_char_def)

lemma is_retryable_errorI:
  assumes "pattern \<in> set retryable_patterns" "contains_ci pattern e"
  shows "is_retryable_error (Some e)"
proof -
  have s: "sublist pattern (lower e)" using assms lower_patterns by (simp add: contains_ci_def)
  have "pattern \<noteq> []" using assms(1) by (auto simp: retryable_patterns_def)
  with s have "e \<noteq> []" by (auto simp: lower_def)
  with s show ?thesis using assms(1) by (auto simp: is_retryable_error_def list_ex_iff)
qed

lemma update_not_Nil: "AList.update k v al \<noteq> []"
  by (cases al) auto

lemma context_dict_falsy: "\<not> context_truthy r \<Longrightarrow> context_dict r = []"
  by (auto simp: context_truthy_def context_dict_def split: option.splits)

lemma retry_branch_below:
  assumes "retry_count_of r = PInt (int n)" "int n < MCP_MAX_RETRIES cfg"
  shows "retry_branch fl cfg r = Inr (r\<lparr>req_context := Some (retry_context cfg r n)\<rparr>)"
  using assms context_dict_falsy[of r]
  by (cases "context_truthy r") (simp_all add: retry_branch_def Let_def retry_context_def)

lemma retry_context_fields:
  "retry_context cfg r n \<noteq> []"
  "map_of (retry_context cfg r n) ''retry_count'' = Some (PInt (int n + 1))"
  "map_of (retry_context cfg r n) ''should_retry'' = Some (PBool True)"
  "map_of (retry_context cfg r n) ''retry_delay'' = Some (PInt (MCP_BACKOFF_FACTOR cfg ^ n))"
  by (simp_all add: retry_context_def update_not_Nil update_conv')

lemma retry_branch_at_max:
  assumes "retry_count_of r = PInt k" "MCP_MAX_RETRIES cfg \<le> k"
  shows "retry_branch fl cfg r = Inr r"
  using assms by (simp add: retry_branch_def)

text \<open>
  Retry and backoff on one call. When the error string of a failed response contains
  one of the retryable patterns case-insensitively and the context's retry count \<open>n\<close> is
  below the configured maximum, \<open>handle_error\<close> returns with the context's retry count at
  \<open>n + 1\<close>, \<open>should_retry\<close> set to \<open>True\<close> and \<open>retry_delay\<close> set to the backoff factor
  to the power \<open>n\<close>; the cache and the server are untouched. At the maximum the handler
  returns the request as it received it, whatever \<open>should_retry\<close> it holds.
\<close>

lemma handle_error_retry_backoff:
  assumes "pattern \<in> set retryable_patterns" and "contains_ci pattern e"
    and "resp_error resp = Some e"
  shows "(retry_count_of r = PInt (int n) \<and> int n < MCP_MAX_RETRIES cfg \<longrightarrow>
           (\<exists>ctx. handle_error fl cfg now now_iso c srv r resp
                    = Inr (c, srv, r\<lparr>req_context := Some ctx\<rparr>, resp) \<and>
                  map_of ctx ''retry_count'' = Some (PInt (int n + 1)) \<and>
                  map_of ctx ''should_retry'' = Some (PBool True) \<and>
                  map_of ctx ''retry_delay'' = Some (PInt (MCP_BACKOFF_FACTOR cfg ^ n))))
       \<and> (retry_count_of r = PInt k \<and> MCP_MAX_RETRIES cfg \<le> k \<longrightarrow>
           (\<exists>c' srv'. handle_error fl cfg now now_iso c srv r resp = Inr (c', srv', r, resp)))"
proof (intro conjI impI)
  have ret: "is_retryable_error (resp_error resp)"
    using assms is_retryable_errorI by simp
  { assume a: "retry_count_of r = PInt (int n) \<and> int n < MCP_MAX_RETRIES cfg"
    let ?ctx = "retry_context cfg r n"
    have rb: "retry_branch fl cfg r = Inr (r\<lparr>req_context := Some ?ctx\<rparr>)"
      using a retry_branch_below by blast
    have "handle_error fl cfg now now_iso c srv r resp
            = Inr (c, srv, r\<lparr>req_context := Some ?ctx\<rparr>, resp)"
      using ret rb retry_context_fields[of cfg r n]
      by (simp add: handle_error_def context_truthy_def context_dict_def dict_get_def)
    then show "\<exists>ctx. handle_error fl cfg now now_iso c srv r resp
                    = Inr (c, srv, r\<lparr>req_context := Some ctx\<rparr>, resp) \<and>
                  map_of ctx ''retry_count'' = Some (PInt (int n + 1)) \<and>
                  map_of ctx ''should_retry'' = Some (PBool True) \<and>
                  map_of ctx ''retry_delay'' = Some (PInt (MCP_BACKOFF_FACTOR cfg ^ n))"
      using retry_context_fields[of cfg r n] by blast }
  { assume a: "retry_count_of r = PInt k \<and> MCP_MAX_RETRIES cfg \<le> k"
    then have "retry_branch fl cfg r = Inr r" using retry_branch_at_max by blast
    then show "\<exists>c' srv'. handle_error fl cfg now now_iso c srv r resp = Inr (c', srv', r, resp)"
      using ret by (auto simp: handle_error_def split: prod.splits) }
qed

lemma timeout_response_retryable: "is_retryable_error (resp_error timeout_response)"
proof -
  have "is_retryable_error (Some ''Connection timeout'')" by code_simp
  then show ?thesis by (simp add: timeout_response_def)
qed

lemma handle_error_retried_step:
  assumes "n < 3"
  shows "handle_error fl default_settings now now_iso c srv
           (test_request (if n = 0 then None else Some (retried_context n))) timeout_response
         = Inr (c, srv, test_request (Some (retried_context (Suc n))), timeout_response)"
proof -
  from assms consider "n = 0" | "n = 1" | "n = 2" by linarith
  then show ?thesis
    using timeout_response_retryable
    by cases
       (simp_all add: handle_error_def retry_branch_def retry_count_of_def context_truthy_def
          context_dict_def dict_get_def default_settings_def test_request_def
          retried_context_def)
qed

text \<open>
  Claim C1, evaluated where it fails. A request with no context fails with
  \<open>Connection timeout\<close> four times in a row (default settings: at most 3 retries, factor
  2). The first three calls of \<open>handle_error\<close> do what the claim says: retry count 1, 2,
  3, \<open>should_retry = True\<close>, delay 1, 2, 4. On the fourth call the retry count is at the
  maximum, the handler returns the request as it is, and \<open>should_retry\<close> is still
  \<open>True\<close>: it is not left unset.
\<close>

theorem handle_error_exhausted_retries_keep_flag:
  "handle_error fl default_settings t1 iso1 c srv (test_request None) timeout_response
     = Inr (c, srv, test_request (Some (retried_context 1)), timeout_response)
   \<and> handle_error fl default_settings t2 iso2 c srv
        (test_request (Some (retried_context 1))) timeout_response
     = Inr (c, srv, test_request (Some (retried_context 2)), timeout_response)
   \<and> handle_error fl default_settings t3 iso3 c srv
        (test_request (Some (retried_context 2))) timeout_response
     = Inr (c, srv, test_request (Some (retried_context 3)), timeout_response)
   \<and> retry_count_of (test_request (Some (retried_context 3)))
     = PInt (MCP_MAX_RETRIES default_settings)
   \<and> handle_error fl default_settings t4 iso4 c srv
        (test_request (Some (retried_context 3))) timeout_response
     = Inr (c, srv, test_request (Some (retried_context 3)), timeout_response)
   \<and> map_of (context_dict (test_request (Some (retried_context 3)))) ''should_retry''
     = Some (PBool True)"
proof -
  have s1: "handle_error fl default_settings t1 iso1 c srv (test_request None) timeout_response
     = Inr (c, srv, test_request (Some (retried_context 1)), timeout_response)"
    using handle_error_retried_step[of 0 fl t1 iso1 c srv] by simp
  have s2: "handle_error fl default_settings t2 iso2 c srv
        (test_request (Some (retried_context 1))) timeout_response
     = Inr (c, srv, test_request (Some (retried_context 2)), timeout_response)"
    using handle_error_retried_step[of 1 fl t2 iso2 c srv] by (simp add: numeral_2_eq_2)
  have s3: "handle_error fl default_settings t3 iso3 c srv
        (test_request (Some (retried_context 2))) timeout_response
     = Inr (c, srv, test_request (Some (retried_context 3)), timeout_response)"
    using handle_error_retried_step[of 2 fl t3 iso3 c srv] by (simp add: numeral_3_eq_3)
  have rc: "retry_count_of (test_request (Some (retried_context 3)))
              = PInt (MCP_MAX_RETRIES default_settings)"
    by (simp add: retry_count_of_def context_truthy_def context_dict_def dict_get_def
        test_request_def retried_context_def default_settings_def)
  have s4: "handle_error fl default_settings t4 iso4 c srv
        (test_request (Some (retried_context 3))) timeout_response
     = Inr (c, srv, test_request (Some (retried_context 3)), timeout_response)"
    using timeout_response_retryable rc
    by (simp add: handle_error_def retry_branch_def context_truthy_def
        context_dict_def dict_get_def test_request_def retried_context_def)
  have f: "map_of (context_dict (test_request (Some (retried_context 3)))) ''should_retry''
             = Some (PBool True)"
    by (simp add: context_dict_def test_request_def retried_context_def)
  show ?thesis using s1 s2 s3 rc s4 f by blast
qed

theorem handle_error_exhausted_retries_keep_flag_witness:
  "handle_error example_float_ops default_settings 0 ''2024-01-01T00:00:00'' Map.empty
       example_server (test_request None) timeout_response
     = Inr (Map.empty, example_server, test_request (Some (retried_context 1)),
            timeout_response)
   \<and> handle_error example_float_ops default_settings 1 ''2024-01-01T00:00:01'' Map.empty
       example_server (test_request (Some (retried_context 1))) timeout_response
     = Inr (Map.empty, example_server, test_request (Some (retried_context 2)),
            timeout_response)
   \<and> handle_error example_float_ops default_settings 3 ''2024-01-01T00:00:03'' Map.empty
       example_server (test_request (Some (retried_context 2))) timeout_response
     = Inr (Map.empty, example_server, test_request (Some (retried_context 3)),
            timeout_response)
   \<and> retry_count_of (test_request (Some (retried_context 3)))
     = PInt (MCP_MAX_RETRIES default_settings)
   \<and> handle_error example_float_ops default_settings 7 ''2024-01-01T00:00:07'' Map.empty
       example_server (test_request (Some (retried_context 3))) timeout_response
     = Inr (Map.empty, example_server, test_request (Some (retried_context 3)),
            timeout_response)
   \<and> map_of (context_dict (test_request (Some (retried_context 3)))) ''should_retry''
     = Some (PBool True)"
  by (rule handle_error_exhausted_retries_keep_flag)

text \<open>
  Claim C3, evaluated where it fails. A request that has been retried three times carries
  \<open>should_retry = True\<close> from the earlier attempts. On the next retryable failure the
  retry count is at the maximum, so the handler does not mark the request for retry on
  this call; yet the stale flag keeps it from the circuit breaker: the cache (and with it
  the error-window counter) and the server come back unchanged.
\<close>

theorem handle_error_stale_should_retry:
  "handle_error fl default_settings now now_iso c srv
     \<lparr>req_method = ''test'', req_params = [],
      req_context = Some [(''retry_count'', PInt 3), (''should_retry'', PBool True),
                          (''retry_delay'', PInt 4)]\<rparr>
     \<lparr>resp_success = False, resp_data = PNone, resp_error = Some ''timeout'',
      resp_metadata = None\<rparr>
   = Inr (c, srv,
          \<lparr>req_method = ''test'', req_params = [],
           req_context = Some [(''retry_count'', PInt 3), (''should_retry'', PBool True),
                               (''retry_delay'', PInt 4)]\<rparr>,
          \<lparr>resp_success = False, resp_data = PNone, resp_error = Some ''timeout'',
           resp_metadata = None\<rparr>)"
proof -
  have "is_retryable_error (Some ''timeout'')" by code_simp
  then show ?thesis
    by (simp add: handle_error_def retry_branch_def retry_count_of_def context_truthy_def
        context_dict_def dict_get_def default_settings_def)
qed

theorem handle_error_stale_should_retry_witness:
  "handle_error example_float_ops default_settings 1000 ''2024-01-01T00:16:40'' Map.empty
     example_server
     \<lparr>req_method = ''test'', req_params = [],
      req_context = Some [(''retry_count'', PInt 3), (''should_retry'', PBool True),
                          (''retry_delay'', PInt 4)]\<rparr>
     \<lparr>resp_success = False, resp_data = PNone, resp_error = Some ''timeout'',
      resp_metadata = None\<rparr>
   = Inr (Map.empty, example_server,
          \<lparr>req_method = ''test'', req_params = [],
           req_context = Some [(''retry_count'', PInt 3), (''should_retry'', PBool True),
                               (''retry_delay'', PInt 4)]\<rparr>,
          \<lparr>resp_success = False, resp_data = PNone, resp_error = Some ''timeout'',
           resp_metadata = None\<rparr>)"
  by (rule handle_error_stale_should_retry)

text \<open>
  The float power is reached only by a negative or a float retry count. There the model
  follows the source as well: the delay is what the float power returns, and when it
  raises, the request keeps the \<open>retry_count\<close> and \<open>should_retry\<close> written before.
\<close>

lemma retry_branch_negative_count:
  assumes "retry_count_of r = PInt k" "k < 0" "k < MCP_MAX_RETRIES cfg"
    "MCP_BACKOFF_FACTOR cfg \<noteq> 0"
  shows "retry_branch fl cfg r
           = (case float_pow fl (MCP_BACKOFF_FACTOR cfg) (of_int k) of
                Inl e \<Rightarrow>
                  Inl (e, r\<lparr>req_context :=
                               Some (AList.update ''should_retry'' (PBool True)
                                      (AList.update ''retry_count'' (PInt (k + 1))
                                        (context_dict r)))\<rparr>)
              | Inr d \<Rightarrow>
                  Inr (r\<lparr>req_context :=
                            Some (AList.update ''retry_delay'' d
                                   (AList.update ''should_retry'' (PBool True)
                                     (AList.update ''retry_count'' (PInt (k + 1))
                                       (context_dict r))))\<rparr>))"
  using assms context_dict_falsy[of r]
  by (cases "context_truthy r") (simp_all add: retry_branch_def Let_def split: sum.splits)

subsection \<open>Circuit breaker\<close>

lemma cache_get_fresh: "fresh_at c k t \<Longrightarrow> cache_get c t k d = d"
  by (auto simp: fresh_at_def cache_get_def split: option.splits)

lemma cache_get_set:
  "now \<le> t \<Longrightarrow> t < now + w \<Longrightarrow> cache_get (cache_set c now k v w) t k d = v"
  by (simp add: cache_get_def cache_set_def)

lemma ccb_cache:
  "fst (check_circuit_breaker cfg now ni c srv)
     = cache_set c now (cb_key srv) (cache_get c now (cb_key srv) 0 + 1) (MCP_ERROR_WINDOW cfg)"
  by (simp add: check_circuit_breaker_def Let_def cb_key_def)

lemma ccb_below:
  "cache_get c now (cb_key srv) 0 + 1 < MCP_ERROR_THRESHOLD cfg
     \<Longrightarrow> snd (check_circuit_breaker cfg now ni c srv) = srv"
  by (simp add: check_circuit_breaker_def Let_def cb_key_def)

lemma ccb_trip:
  "MCP_ERROR_THRESHOLD cfg \<le> cache_get c now (cb_key srv) 0 + 1
     \<Longrightarrow> snd (check_circuit_breaker cfg now ni c srv)
         = srv\<lparr>srv_status := ERROR,
               srv_metadata := AList.update ''circuit_breaker_triggered'' (PStr ni) (srv_metadata srv)\<rparr>"
  by (simp add: check_circuit_breaker_def Let_def cb_key_def)

lemma within_window_tail:
  "within_window w (t # t' # ts) \<Longrightarrow> within_window w (t' # ts) \<and> t \<le> t' \<and> t' < t + w"
  by (auto simp: within_window_def list_all_iff)

lemma record_errors_below:
  assumes "within_window (MCP_ERROR_WINDOW cfg) (map fst ts)"
    and "ts \<noteq> []"
    and "cache_get c (fst (hd ts)) (cb_key srv) 0 = k"
    and "k + int (length ts) < MCP_ERROR_THRESHOLD cfg"
  shows "snd (record_errors cfg ts c srv) = srv \<and>
         (\<forall>t. fst (last ts) \<le> t \<and> t < fst (last ts) + MCP_ERROR_WINDOW cfg \<longrightarrow>
              cache_get (fst (record_errors cfg ts c srv)) t (cb_key srv) 0 = k + int (length ts))"
  using assms
proof (induction ts arbitrary: c k)
  case Nil
  then show ?case by simp
next
  case (Cons x rest)
  obtain now ni where x: "x = (now, ni)" by (cases x)
  let ?c1 = "fst (check_circuit_breaker cfg now ni c srv)"
  have k: "cache_get c now (cb_key srv) 0 = k" using Cons.prems x by simp
  have s1: "snd (check_circuit_breaker cfg now ni c srv) = srv"
    using ccb_below[of c now srv cfg ni] k Cons.prems(4) by simp
  have c1: "?c1 = cache_set c now (cb_key srv) (k + 1) (MCP_ERROR_WINDOW cfg)"
    using ccb_cache[of cfg now ni c srv] k by simp
  have step: "record_errors cfg (x # rest) c srv = record_errors cfg rest ?c1 srv"
    using s1 x by (simp add: case_prod_beta)
  show ?case
  proof (cases rest)
    case Nil
    then show ?thesis using step c1 x by (simp add: cache_get_set)
  next
    case (Cons y rest')
    have ww: "within_window (MCP_ERROR_WINDOW cfg) (map fst rest)"
      and le: "now \<le> fst y" and lt: "fst y < now + MCP_ERROR_WINDOW cfg"
      using Cons.prems(1) x Cons within_window_tail[of "MCP_ERROR_WINDOW cfg" now "fst y" "map fst rest'"]
      by simp_all
    have k1: "cache_get ?c1 (fst (hd rest)) (cb_key srv) 0 = k + 1"
      using c1 Cons le lt by (simp add: cache_get_set)
    have "snd (record_errors cfg rest ?c1 srv) = srv \<and>
         (\<forall>t. fst (last rest) \<le> t \<and> t < fst (last rest) + MCP_ERROR_WINDOW cfg \<longrightarrow>
              cache_get (fst (record_errors cfg rest ?c1 srv)) t (cb_key srv) 0 = k + 1 + int (length rest))"
      using Cons.IH[OF ww _ k1] Cons Cons.prems(4) by simp
    then show ?thesis using step Cons by simp
  qed
qed

lemma record_errors_append:
  "record_errors cfg (xs @ ys) c srv
     = record_errors cfg ys (fst (record_errors cfg xs c srv)) (snd (record_errors cfg xs c srv))"
  by (induction xs arbitrary: c srv) (auto split: prod.splits)

lemma within_window_butlast:
  "within_window w ts \<Longrightarrow> within_window w (butlast ts)"
  by (cases ts; cases "butlast ts")
     (auto simp: within_window_def list_all_iff sorted_butlast dest: in_set_butlastD split: if_splits list.splits)

lemma within_window_last:
  assumes "within_window w ts" "butlast ts \<noteq> []"
  shows "last (butlast ts) \<le> last ts \<and> last ts < last (butlast ts) + w"
proof -
  from assms obtain t0 rest where ts: "ts = t0 # rest" by (cases ts) auto
  have srt: "sorted ts" and all: "\<forall>t\<in>set ts. t < t0 + w"
    using assms(1) ts by (auto simp: within_window_def list_all_iff)
  have ne: "ts \<noteq> []" using ts by simp
  have app: "ts = butlast ts @ [last ts]" using ne by simp
  have "sorted (butlast ts @ [last ts])" using srt app by simp
  then have a: "\<forall>x\<in>set (butlast ts). x \<le> last ts" by (simp add: sorted_append)
  have l1: "last (butlast ts) \<in> set (butlast ts)" using assms(2) by simp
  have "last (butlast ts) \<in> set ts" using l1 by (rule in_set_butlastD)
  then have "t0 \<le> last (butlast ts)" using srt ts by auto
  moreover have "last ts < t0 + w" using all ne by simp
  ultimately show ?thesis using a l1 ts by auto
qed

text \<open>
  Without a stale flag the handler does what C3 describes: when it does not mark the
  request for retry and the context carries no truthy \<open>should_retry\<close>, it calls the
  circuit breaker once, which raises the backend's counter by one for the next window.
\<close>

lemma handle_error_records_one_error:
  assumes "\<not> is_retryable_error (resp_error resp)
           \<or> (\<exists>k. retry_count_of r = PInt k \<and> MCP_MAX_RETRIES cfg \<le> k)"
    and "\<not> truthy (dict_get (context_dict r) ''should_retry'' PNone)"
  shows "handle_error fl cfg now now_iso c srv r resp
           = Inr (fst (check_circuit_breaker cfg now now_iso c srv),
                  snd (check_circuit_breaker cfg now now_iso c srv), r, resp)"
    and "now \<le> t \<Longrightarrow>
         cache_get (fst (check_circuit_breaker cfg now now_iso c srv)) t (cb_key srv) 0
           = (if t < now + MCP_ERROR_WINDOW cfg
              then cache_get c now (cb_key srv) 0 + 1 else 0)"
proof -
  have "(if is_retryable_error (resp_error resp) then retry_branch fl cfg r else Inr r) = Inr r"
    using assms(1) retry_branch_at_max by auto
  then show "handle_error fl cfg now now_iso c srv r resp
           = Inr (fst (check_circuit_breaker cfg now now_iso c srv),
                  snd (check_circuit_breaker cfg now now_iso c srv), r, resp)"
    using assms(2) by (simp add: handle_error_def case_prod_beta)
  assume "now \<le> t"
  then show "cache_get (fst (check_circuit_breaker cfg now now_iso c srv)) t (cb_key srv) 0
           = (if t < now + MCP_ERROR_WINDOW cfg
              then cache_get c now (cb_key srv) 0 + 1 else 0)"
    by (simp add: ccb_cache cache_get_def cache_set_def)
qed

text \<open>
  Claim C4. Starting from an absent or expired counter, recording exactly
  \<open>MCP_ERROR_THRESHOLD\<close> errors for one backend within one error window sets its status
  to \<open>ERROR\<close> and stamps \<open>circuit_breaker_triggered\<close> in its metadata with the timestamp
  of the last of them; recording one error fewer leaves the backend as it was.
\<close>

theorem circuit_breaker_threshold:
  assumes "within_window (MCP_ERROR_WINDOW cfg) (map fst ts)"
    and "fresh_from c (cb_key srv) (map fst ts)"
  shows "(ts \<noteq> [] \<and> int (length ts) = MCP_ERROR_THRESHOLD cfg \<longrightarrow>
            srv_status (snd (record_errors cfg ts c srv)) = ERROR \<and>
            map_of (srv_metadata (snd (record_errors cfg ts c srv))) ''circuit_breaker_triggered''
              = Some (PStr (snd (last ts))))
       \<and> (int (length ts) = MCP_ERROR_THRESHOLD cfg - 1 \<longrightarrow>
            snd (record_errors cfg ts c srv) = srv)"
proof (rule conjI; rule impI)
  assume len: "int (length ts) = MCP_ERROR_THRESHOLD cfg - 1"
  show "snd (record_errors cfg ts c srv) = srv"
  proof (cases ts)
    case Nil
    then show ?thesis by simp
  next
    case (Cons x rest)
    have "cache_get c (fst (hd ts)) (cb_key srv) 0 = 0"
      using assms(2) Cons by (cases x) (simp add: fresh_from_def cache_get_fresh)
    then show ?thesis
      using record_errors_below[OF assms(1), of c srv 0] Cons len by simp
  qed
next
  assume a: "ts \<noteq> [] \<and> int (length ts) = MCP_ERROR_THRESHOLD cfg"
  let ?W = "MCP_ERROR_WINDOW cfg"
  let ?init = "butlast ts"
  obtain now ni where lst: "last ts = (now, ni)" by (cases "last ts")
  have app: "ts = ?init @ [(now, ni)]" using a lst by (metis append_butlast_last_id)
  let ?c1 = "fst (record_errors cfg ?init c srv)"
  have mid: "snd (record_errors cfg ?init c srv) = srv \<and>
             cache_get ?c1 now (cb_key srv) 0 = int (length ?init)"
  proof (cases "?init = []")
    case True
    then have "ts = [(now, ni)]" using app by simp
    then have "fresh_at c (cb_key srv) now" using assms(2) by (simp add: fresh_from_def)
    then show ?thesis using True by (simp add: cache_get_fresh)
  next
    case False
    have ww: "within_window ?W (map fst ?init)"
      using within_window_butlast[OF assms(1)] by (simp add: map_butlast)
    obtain x rest where ts: "ts = x # rest" using a by (cases ts) auto
    have hd_eq: "hd ?init = hd ts" using False ts by (cases rest) auto
    have k0: "cache_get c (fst (hd ?init)) (cb_key srv) 0 = 0"
      using assms(2) ts hd_eq by (cases x) (simp add: fresh_from_def cache_get_fresh)
    have "length ?init < length ts" using a by simp
    then have lt: "int (length ?init) < MCP_ERROR_THRESHOLD cfg" using a by linarith
    have rng: "fst (last ?init) \<le> now \<and> now < fst (last ?init) + ?W"
    proof -
      have "butlast (map fst ts) \<noteq> []" using False by (simp add: map_butlast[symmetric])
      from within_window_last[OF assms(1) this]
      show ?thesis using a lst False by (simp add: last_map map_butlast[symmetric])
    qed
    show ?thesis
      using record_errors_below[OF ww False k0] lt rng by simp
  qed
  have trip: "MCP_ERROR_THRESHOLD cfg \<le> cache_get ?c1 now (cb_key srv) 0 + 1"
    using mid a app by (metis add.commute length_append_singleton of_nat_Suc order_refl)
  have "snd (record_errors cfg ts c srv) = snd (check_circuit_breaker cfg now ni ?c1 srv)"
    using mid by (subst app, simp add: record_errors_append split: prod.splits)
  then have "snd (record_errors cfg ts c srv)
      = srv\<lparr>srv_status := ERROR,
            srv_metadata := AList.update ''circuit_breaker_triggered'' (PStr ni) (srv_metadata srv)\<rparr>"
    using ccb_trip[OF trip] by simp
  then show "srv_status (snd (record_errors cfg ts c srv)) = ERROR \<and>
            map_of (srv_metadata (snd (record_errors cfg ts c srv))) ''circuit_breaker_triggered''
              = Some (PStr (snd (last ts)))"
    using lst by (simp add: update_conv')
qed

theorem circuit_breaker_threshold_witness:
  "within_window (MCP_ERROR_WINDOW default_settings) (map fst [(0, ''t0''), (10, ''t1''), (20, ''t2''), (30, ''t3''), (40, ''t4''), (50, ''t5''), (60, ''t6''), (70, ''t7''), (80, ''t8''), (299, ''t9'')])
   \<and> fresh_from Map.empty (cb_key example_server) (map fst [(0, ''t0''), (10, ''t1''), (20, ''t2''), (30, ''t3''), (40, ''t4''), (50, ''t5''), (60, ''t6''), (70, ''t7''), (80, ''t8''), (299, ''t9'')])
   \<and> int (length [(0::int, ''t0''), (10, ''t1''), (20, ''t2''), (30, ''t3''), (40, ''t4''), (50, ''t5''), (60, ''t6''), (70, ''t7''), (80, ''t8''), (299, ''t9'')]) = MCP_ERROR_THRESHOLD default_settings
   \<and> srv_status (snd (record_errors default_settings [(0, ''t0''), (10, ''t1''), (20, ''t2''), (30, ''t3''), (40, ''t4''), (50, ''t5''), (60, ''t6''), (70, ''t7''), (80, ''t8''), (299, ''t9'')] Map.empty example_server)) = ERROR
   \<and> map_of (srv_metadata (snd (record_errors default_settings [(0, ''t0''), (10, ''t1''), (20, ''t2''), (30, ''t3''), (40, ''t4''), (50, ''t5''), (60, ''t6''), (70, ''t7''), (80, ''t8''), (299, ''t9'')] Map.empty example_server))) ''circuit_breaker_triggered'' = Some (PStr ''t9'')
   \<and> within_window (MCP_ERROR_WINDOW default_settings) (map fst [(0, ''t0''), (10, ''t1''), (20, ''t2''), (30, ''t3''), (40, ''t4''), (50, ''t5''), (60, ''t6''), (70, ''t7''), (80, ''t8'')])
   \<and> fresh_from Map.empty (cb_key example_server) (map fst [(0, ''t0''), (10, ''t1''), (20, ''t2''), (30, ''t3''), (40, ''t4''), (50, ''t5''), (60, ''t6''), (70, ''t7''), (80, ''t8'')])
   \<and> int (length [(0::int, ''t0''), (10, ''t1''), (20, ''t2''), (30, ''t3''), (40, ''t4''), (50, ''t5''), (60, ''t6''), (70, ''t7''), (80, ''t8'')]) = MCP_ERROR_THRESHOLD default_settings - 1
   \<and> snd (record_errors default_settings [(0, ''t0''), (10, ''t1''), (20, ''t2''), (30, ''t3''), (40, ''t4''), (50, ''t5''), (60, ''t6''), (70, ''t7''), (80, ''t8'')] Map.empty example_server) = example_server"
proof -
  let ?ts = "[(0::int, ''t0''), (10, ''t1''), (20, ''t2''), (30, ''t3''), (40, ''t4''), (50, ''t5''), (60, ''t6''), (70, ''t7''), (80, ''t8''), (299, ''t9'')]"
  let ?us = "[(0::int, ''t0''), (10, ''t1''), (20, ''t2''), (30, ''t3''), (40, ''t4''), (50, ''t5''), (60, ''t6''), (70, ''t7''), (80, ''t8'')]"
  have w1: "within_window (MCP_ERROR_WINDOW default_settings) (map fst ?ts)"
    by (simp add: within_window_def default_settings_def)
  have w2: "within_window (MCP_ERROR_WINDOW default_settings) (map fst ?us)"
    by (simp add: within_window_def default_settings_def)
  have f1: "fresh_from Map.empty (cb_key example_server) (map fst ?ts)"
    by (simp add: fresh_from_def fresh_at_def)
  have f2: "fresh_from Map.empty (cb_key example_server) (map fst ?us)"
    by (simp add: fresh_from_def fresh_at_def)
  have l1: "int (length ?ts) = MCP_ERROR_THRESHOLD default_settings"
    by (simp add: default_settings_def)
  have l2: "int (length ?us) = MCP_ERROR_THRESHOLD default_settings - 1"
    by (simp add: default_settings_def)
  show ?thesis
    using circuit_breaker_threshold[OF w1 f1] circuit_breaker_threshold[OF w2 f2] w1 w2 f1 f2 l1 l2
    by simp
qed

section \<open>Properties of the rate limiter\<close>

lemma check_limit_allowed:
  assumes "map_of (limits cfg) operation = Some (N, W)"
    and "cache_get c now (rate_key srv operation) 0 < N"
  shows "check_limit cfg now c srv operation
           = (True, cache_set c now (rate_key srv operation)
                      (cache_get c now (rate_key srv operation) 0 + 1) W)"
  using assms by (simp add: check_limit_def Let_def)

lemma check_limit_denied:
  assumes "map_of (limits cfg) operation = Some (N, W)"
    and "N \<le> cache_get c now (rate_key srv operation) 0"
  shows "check_limit cfg now c srv operation = (False, c)"
  using assms by (simp add: check_limit_def Let_def)

lemma cache_set_twice:
  "cache_set (cache_set c t1 k v1 w1) t2 k v2 w2 = cache_set c t2 k v2 w2"
  by (simp add: cache_set_def)

lemma check_limits_allowed:
  assumes "map_of (limits cfg) operation = Some (N, W)"
    and "within_window W ts" and "ts \<noteq> []"
    and "cache_get c (hd ts) (rate_key srv operation) 0 = k"
    and "k + int (length ts) \<le> N"
  shows "check_limits cfg ts c srv operation
           = (replicate (length ts) True,
              cache_set c (last ts) (rate_key srv operation) (k + int (length ts)) W)"
  using assms(2-)
proof (induction ts arbitrary: c k)
  case Nil
  then show ?case by simp
next
  case (Cons now rest)
  let ?key = "rate_key srv operation"
  have k: "cache_get c now ?key 0 = k" using Cons.prems by simp
  have step: "check_limit cfg now c srv operation = (True, cache_set c now ?key (k + 1) W)"
    using check_limit_allowed[OF assms(1), of c now srv] k Cons.prems(4) by simp
  show ?case
  proof (cases rest)
    case Nil
    then show ?thesis using step by simp
  next
    case (Cons t' rest')
    have ww: "within_window W rest" and le: "now \<le> t'" and lt: "t' < now + W"
      using Cons.prems(1) Cons within_window_tail[of W now t' rest'] by simp_all
    have k1: "cache_get (cache_set c now ?key (k + 1) W) (hd rest) ?key 0 = k + 1"
      using Cons le lt by (simp add: cache_get_set)
    have ne: "rest \<noteq> []" using Cons by simp
    have le2: "k + 1 + int (length rest) \<le> N" using Cons.prems(4) by simp
    have "check_limits cfg rest (cache_set c now ?key (k + 1) W) srv operation
            = (replicate (length rest) True,
               cache_set c (last rest) ?key (k + 1 + int (length rest)) W)"
      using Cons.IH[OF ww ne k1 le2] by (simp add: cache_set_twice)
    then show ?thesis using step ne by (simp add: add.assoc)
  qed
qed

lemma within_window_prefix:
  "within_window w (ts @ us) \<Longrightarrow> within_window w ts"
  by (cases ts) (auto simp: within_window_def list_all_iff sorted_append)

lemma within_window_snoc:
  assumes "within_window w (ts @ [t])" "ts \<noteq> []"
  shows "last ts \<le> t \<and> t < last ts + w"
proof -
  have "butlast (ts @ [t]) \<noteq> []" using assms(2) by simp
  from within_window_last[OF assms(1) this] show ?thesis by simp
qed

text \<open>
  Claim C5. For an operation class with maximum \<open>N\<close> and window \<open>W\<close>, starting from
  an absent or expired counter, with all calls in one window: the first \<open>N\<close> calls of
  \<open>check_limit\<close> are all allowed, and after the \<open>n\<close>-th of them the cache holds the
  count \<open>n\<close> with the window re-armed at that call; the next call in the window is
  denied and leaves the cache as it is; a call once the window armed by the last
  allowed call has elapsed, with no write in between, is allowed again.
\<close>

theorem check_limit_window:
  assumes "map_of (limits cfg) operation = Some (N, W)"
    and "within_window W (ts @ [t])"
    and "fresh_from c (rate_key srv operation) (ts @ [t])"
    and "int (length ts) = N"
  shows "fst (check_limits cfg ts c srv operation) = replicate (length ts) True
       \<and> (\<forall>n. 0 < n \<and> n \<le> length ts \<longrightarrow>
             snd (check_limits cfg (take n ts) c srv operation)
               = cache_set c (ts ! (n - 1)) (rate_key srv operation) (int n) W)
       \<and> check_limit cfg t (snd (check_limits cfg ts c srv operation)) srv operation
           = (False, snd (check_limits cfg ts c srv operation))
       \<and> (\<forall>t'. ts \<noteq> [] \<and> last ts + W \<le> t' \<longrightarrow>
             fst (check_limit cfg t' (snd (check_limits cfg ts c srv operation)) srv operation))"
proof (cases "ts = []")
  case True
  then have "fresh_at c (rate_key srv operation) t" using assms(3) by (simp add: fresh_from_def)
  then have "cache_get c t (rate_key srv operation) 0 = 0" by (rule cache_get_fresh)
  then show ?thesis using True assms(4) check_limit_denied[OF assms(1), of c t srv] by simp
next
  case False
  let ?key = "rate_key srv operation"
  have ww: "within_window W ts" using assms(2) by (rule within_window_prefix)
  obtain t0 rest where ts: "ts = t0 # rest" using False by (cases ts) auto
  have k0: "cache_get c (hd ts) ?key 0 = 0"
    using assms(3) ts by (simp add: fresh_from_def cache_get_fresh)
  have all: "check_limits cfg ts c srv operation
      = (replicate (length ts) True, cache_set c (last ts) ?key (int (length ts)) W)"
    using check_limits_allowed[OF assms(1) ww False k0] assms(4) by simp
  have pre: "snd (check_limits cfg (take n ts) c srv operation)
               = cache_set c (ts ! (n - 1)) ?key (int n) W" if n: "0 < n \<and> n \<le> length ts" for n
  proof -
    have w: "within_window W (take n ts)"
      using ww within_window_prefix[of W "take n ts" "drop n ts"] by simp
    have ne: "take n ts \<noteq> []" using n ts by auto
    have h: "hd (take n ts) = hd ts" using n ts by (cases n) auto
    have l: "last (take n ts) = ts ! (n - 1)" using n ne by (simp add: last_conv_nth min_absorb2)
    have "length (take n ts) = n" using n by simp
    then show ?thesis
      using check_limits_allowed[OF assms(1) w ne, of c srv 0] k0 h l assms(4) n by simp
  qed
  have rng: "last ts \<le> t \<and> t < last ts + W" using within_window_snoc[OF assms(2) False] .
  have cnt: "cache_get (cache_set c (last ts) ?key (int (length ts)) W) t ?key 0 = N"
    using rng assms(4) by (simp add: cache_get_set)
  have den: "check_limit cfg t (snd (check_limits cfg ts c srv operation)) srv operation
           = (False, snd (check_limits cfg ts c srv operation))"
    using all check_limit_denied[OF assms(1), of _ t srv] cnt by simp
  have aft: "fst (check_limit cfg t' (snd (check_limits cfg ts c srv operation)) srv operation)"
    if "last ts + W \<le> t'" for t'
  proof -
    have "cache_get (cache_set c (last ts) ?key (int (length ts)) W) t' ?key 0 = 0"
      using that by (simp add: cache_get_def cache_set_def)
    moreover have "0 < N" using assms(4) False by auto
    ultimately show ?thesis
      using all check_limit_allowed[OF assms(1), of _ t' srv] by simp
  qed
  show ?thesis using all pre den aft by simp
qed

theorem check_limit_window_witness:
  "map_of (limits default_settings) ''connect'' = Some (10, 60)
   \<and> within_window 60 ([0, 1, 2, 3, 4, 5, 6, 7, 8, 9] @ [10])
   \<and> fresh_from Map.empty (rate_key example_server ''connect'') ([0, 1, 2, 3, 4, 5, 6, 7, 8, 9] @ [10])
   \<and> int (length [0::int, 1, 2, 3, 4, 5, 6, 7, 8, 9]) = 10
   \<and> fst (check_limits default_settings [0, 1, 2, 3, 4, 5, 6, 7, 8, 9] Map.empty example_server ''connect'')
       = replicate 10 True
   \<and> snd (check_limits default_settings (take 3 [0, 1, 2, 3, 4, 5, 6, 7, 8, 9]) Map.empty
            example_server ''connect'')
       = cache_set Map.empty 2 (rate_key example_server ''connect'') 3 60
   \<and> check_limit default_settings 10
        (snd (check_limits default_settings [0, 1, 2, 3, 4, 5, 6, 7, 8, 9] Map.empty example_server ''connect''))
        example_server ''connect''
       = (False, snd (check_limits default_settings [0, 1, 2, 3, 4, 5, 6, 7, 8, 9] Map.empty example_server ''connect''))
   \<and> fst (check_limit default_settings 69
        (snd (check_limits default_settings [0, 1, 2, 3, 4, 5, 6, 7, 8, 9] Map.empty example_server ''connect''))
        example_server ''connect'')"
proof -
  let ?ts = "[0::int, 1, 2, 3, 4, 5, 6, 7, 8, 9]"
  have l: "map_of (limits default_settings) ''connect'' = Some (10, 60)"
    by (simp add: limits_def default_settings_def)
  have w: "within_window 60 (?ts @ [10])" by (simp add: within_window_def)
  have f: "fresh_from Map.empty (rate_key example_server ''connect'') (?ts @ [10])"
    by (simp add: fresh_from_def fresh_at_def)
  have n: "int (length ?ts) = 10" by simp
  note t = check_limit_window[OF l w f n]
  have len: "length ?ts = 10" by simp
  have a: "fst (check_limits default_settings ?ts Map.empty example_server ''connect'')
            = replicate 10 True"
  proof -
    from t have "fst (check_limits default_settings ?ts Map.empty example_server ''connect'')
            = replicate (length ?ts) True"
      by blast
    then show ?thesis unfolding len .
  qed
  have b: "snd (check_limits default_settings (take 3 ?ts) Map.empty example_server ''connect'')
       = cache_set Map.empty 2 (rate_key example_server ''connect'') 3 60"
  proof -
    from t have "\<forall>n. 0 < n \<and> n \<le> length ?ts \<longrightarrow>
             snd (check_limits default_settings (take n ?ts) Map.empty example_server ''connect'')
               = cache_set Map.empty (?ts ! (n - 1)) (rate_key example_server ''connect'') (int n) 60"
      by blast
    from this[rule_format, of 3]
    have "snd (check_limits default_settings (take 3 ?ts) Map.empty example_server ''connect'')
               = cache_set Map.empty (?ts ! (3 - 1)) (rate_key example_server ''connect'') (int 3) 60"
      by simp
    moreover have "?ts ! (3 - 1) = 2" by simp
    moreover have "int 3 = 3" by simp
    ultimately show ?thesis by (simp only:)
  qed
  have c: "check_limit default_settings 10
        (snd (check_limits default_settings ?ts Map.empty example_server ''connect''))
        example_server ''connect''
       = (False, snd (check_limits default_settings ?ts Map.empty example_server ''connect''))"
    using t by blast
  have d: "fst (check_limit default_settings 69
        (snd (check_limits default_settings ?ts Map.empty example_server ''connect''))
        example_server ''connect'')"
  proof -
    from t have "\<forall>t'. ?ts \<noteq> [] \<and> last ?ts + 60 \<le> t' \<longrightarrow>
             fst (check_limit default_settings t'
                    (snd (check_limits default_settings ?ts Map.empty example_server ''connect''))
                    example_server ''connect'')"
      by blast
    moreover have "?ts \<noteq> [] \<and> last ?ts + 60 \<le> 69" by simp
    ultimately show ?thesis by blast
  qed
  show ?thesis using l w f n a b c d by blast
qed

section \<open>Properties of the request transformer\<close>

lemma update_default_keeps:
  "map_of al k = Some v \<Longrightarrow> map_of (AList.update k' (dict_get al k' d) al) k = Some v"
  by (cases "k = k'") (simp_all add: update_conv' dict_get_def)

lemma update_other_keeps:
  "map_of al k = Some v \<Longrightarrow> k \<noteq> k' \<Longrightarrow> map_of (AList.update k' w al) k = Some v"
  by (simp add: update_conv')

lemma update_keeps_key:
  "map_of al k = Some v \<Longrightarrow> map_of (AList.update k' w al) k \<noteq> None"
  by (cases "k = k'") (simp_all add: update_conv')

lemma update_new_key:
  "map_of (AList.update k' w al) k \<noteq> None \<Longrightarrow> map_of al k = None \<Longrightarrow> k = k'"
  by (cases "k = k'") (simp_all add: update_conv')

lemma default_keeps:
  "map_of (req_params r) k = Some v
     \<Longrightarrow> map_of (req_params (apply_default_transformations cfg r ctx)) k = Some v"
proof (cases "map_of (req_params r) ''timeout'' = None")
  case True
  assume a: "map_of (req_params r) k = Some v"
  then have "k \<noteq> ''timeout''" using True by auto
  then show ?thesis using a True
    by (simp add: apply_default_transformations_def update_other_keeps)
next
  case False
  assume "map_of (req_params r) k = Some v"
  then show ?thesis using False
    by (simp add: apply_default_transformations_def del: not_None_eq)
qed

lemma github_keeps:
  assumes "map_of (req_params r) k = Some v"
  shows "map_of (req_params (transform_github_request r ctx)) k = Some v"
proof (cases "req_method r = ''search_code''")
  case True
  let ?p1 = "AList.update ''per_page'' (dict_get (req_params r) ''per_page'' (PInt 30))
               (req_params r)"
  have "map_of ?p1 k = Some v" using assms by (rule update_default_keeps)
  then have "map_of (AList.update ''sort'' (dict_get ?p1 ''sort'' (PStr ''best-match'')) ?p1) k
               = Some v"
    by (rule update_default_keeps)
  then show ?thesis using True by (simp add: transform_github_request_def Let_def)
next
  case False
  then show ?thesis using assms by (simp add: transform_github_request_def)
qed

lemma claude_keeps:
  assumes "map_of (req_params r) k = Some v"
  shows "map_of (req_params (transform_claude_request r ctx)) k \<noteq> None"
    and "k \<noteq> ''user_context'' \<Longrightarrow> map_of (req_params (transform_claude_request r ctx)) k = Some v"
proof -
  show "map_of (req_params (transform_claude_request r ctx)) k \<noteq> None"
    using assms update_keeps_key[OF assms]
    by (simp add: transform_claude_request_def split: option.splits)
  assume "k \<noteq> ''user_context''"
  then show "map_of (req_params (transform_claude_request r ctx)) k = Some v"
    using assms update_other_keeps[OF assms]
    by (simp add: transform_claude_request_def split: option.splits)
qed

lemma default_adds:
  assumes "map_of (req_params (apply_default_transformations cfg r ctx)) k \<noteq> None"
    and "map_of (req_params r) k = None"
  shows "k = ''timeout''"
proof (cases "map_of (req_params r) ''timeout'' = None")
  case True
  then have "map_of (AList.update ''timeout'' (MCP_DEFAULT_REQUEST_TIMEOUT cfg) (req_params r)) k
               \<noteq> None"
    using assms(1) by (simp add: apply_default_transformations_def)
  then show ?thesis using assms(2) by (rule update_new_key)
next
  case False
  then have "apply_default_transformations cfg r ctx = r"
    by (simp add: apply_default_transformations_def del: not_None_eq)
  then show ?thesis using assms by simp
qed

lemma github_adds:
  assumes "map_of (req_params (transform_github_request r ctx)) k \<noteq> None"
    and "map_of (req_params r) k = None"
  shows "k = ''per_page'' \<or> k = ''sort''"
proof (cases "req_method r = ''search_code''")
  case True
  let ?p1 = "AList.update ''per_page'' (dict_get (req_params r) ''per_page'' (PInt 30))
               (req_params r)"
  have p2: "map_of (AList.update ''sort'' (dict_get ?p1 ''sort'' (PStr ''best-match'')) ?p1) k
               \<noteq> None"
    using assms(1) True by (simp add: transform_github_request_def Let_def)
  show ?thesis
  proof (cases "map_of ?p1 k = None")
    case True
    with p2 have "k = ''sort''" by (rule update_new_key)
    then show ?thesis by simp
  next
    case False
    then have "k = ''per_page''" using assms(2) by (rule update_new_key)
    then show ?thesis by simp
  qed
next
  case False
  then show ?thesis using assms by (simp add: transform_github_request_def)
qed

lemma claude_adds:
  assumes "map_of (req_params (transform_claude_request r ctx)) k \<noteq> None"
    and "map_of (req_params r) k = None"
  shows "k = ''user_context''"
proof (cases ctx)
  case None
  then show ?thesis using assms by (simp add: transform_claude_request_def)
next
  case (Some d)
  show ?thesis
  proof (cases "map_of d ''user_id''")
    case None
    then show ?thesis using assms Some by (simp add: transform_claude_request_def)
  next
    case (Some user_id)
    let ?v = "PDict [(''user_id'', user_id), (''session_id'', dict_get d ''session_id'' PNone)]"
    have "map_of (AList.update ''user_context'' ?v (req_params r)) k \<noteq> None"
      using assms(1) Some \<open>ctx = Some d\<close> by (simp add: transform_claude_request_def)
    then show ?thesis using assms(2) by (rule update_new_key)
  qed
qed


text \<open>
  Claim C9. The default request transform followed by a provider-specific one (claude or
  github) keeps every key of the original params; every key other than \<open>user_context\<close>
  (which the claude transform sets) keeps its original value; and a key that is new is
  one of \<open>timeout\<close>, \<open>user_context\<close>, \<open>per_page\<close>, \<open>sort\<close>.
\<close>

theorem request_transforms_keep_params:
  assumes "provider = transform_claude_request \<or> provider = transform_github_request"
    and "r' = provider (apply_default_transformations cfg r ctx) ctx'"
  shows "(map_of (req_params r) k = Some v \<longrightarrow>
            map_of (req_params r') k \<noteq> None
            \<and> (k \<noteq> ''user_context'' \<longrightarrow> map_of (req_params r') k = Some v))
       \<and> (map_of (req_params r) k = None \<and> map_of (req_params r') k \<noteq> None \<longrightarrow>
            k \<in> {''timeout'', ''user_context'', ''per_page'', ''sort''})"
proof -
  let ?d = "apply_default_transformations cfg r ctx"
  let ?new = "{''timeout'', ''user_context'', ''per_page'', ''sort''}"
  have new: "k = ''timeout''"
    if "map_of (req_params r) k = None" "map_of (req_params ?d) k \<noteq> None"
    using default_adds[OF that(2) that(1)] .
  have k1: "map_of (req_params r') k \<noteq> None" if a: "map_of (req_params r) k = Some v"
  proof (rule disjE[OF assms(1)])
    assume p: "provider = transform_claude_request"
    show ?thesis unfolding assms(2) p using claude_keeps(1)[OF default_keeps[OF a]] .
  next
    assume p: "provider = transform_github_request"
    have "map_of (req_params r') k = Some v"
      unfolding assms(2) p using github_keeps[OF default_keeps[OF a]] .
    then show ?thesis by (simp only: option.distinct not_False_eq_True)
  qed
  have k2: "map_of (req_params r') k = Some v"
    if a: "map_of (req_params r) k = Some v" and b: "k \<noteq> ''user_context''"
  proof (rule disjE[OF assms(1)])
    assume p: "provider = transform_claude_request"
    show ?thesis unfolding assms(2) p using claude_keeps(2)[OF default_keeps[OF a] b] .
  next
    assume p: "provider = transform_github_request"
    show ?thesis unfolding assms(2) p using github_keeps[OF default_keeps[OF a]] .
  qed
  have k3: "k \<in> ?new"
    if a: "map_of (req_params r) k = None" and b: "map_of (req_params r') k \<noteq> None"
  proof (cases "map_of (req_params ?d) k = None")
    case False
    have "k = ''timeout''" using a False by (rule new)
    then show ?thesis by (simp only: insert_iff simp_thms)
  next
    case True
    show ?thesis
    proof (rule disjE[OF assms(1)])
      assume p: "provider = transform_claude_request"
      have "k = ''user_context''" using b True unfolding assms(2) p by (rule claude_adds)
      then show ?thesis by (simp only: insert_iff simp_thms)
    next
      assume p: "provider = transform_github_request"
      have "k = ''per_page'' \<or> k = ''sort''"
        using b True unfolding assms(2) p by (rule github_adds)
      then show ?thesis
      proof
        assume "k = ''per_page''"
        then show ?thesis by (simp only: insert_iff simp_thms)
      next
        assume "k = ''sort''"
        then show ?thesis by (simp only: insert_iff simp_thms)
      qed
    qed
  qed
  show ?thesis
  proof (intro conjI impI)
    assume "map_of (req_params r) k = Some v"
    then show "map_of (req_params r') k \<noteq> None" by (rule k1)
  next
    assume "map_of (req_params r) k = Some v" and "k \<noteq> ''user_context''"
    then show "map_of (req_params r') k = Some v" by (rule k2)
  next
    assume "map_of (req_params r) k = None \<and> map_of (req_params r') k \<noteq> None"
    then show "k \<in> ?new" using k3 by (elim conjE)
  qed
qed

theorem request_transforms_keep_params_witness:
  "map_of (req_params \<lparr>req_method = ''search_code'',
                        req_params = [(''q'', PStr ''tort''), (''per_page'', PInt 5)],
                        req_context = None\<rparr>) ''per_page'' = Some (PInt 5)
   \<and> map_of (req_params (transform_github_request
        (apply_default_transformations default_settings
           \<lparr>req_method = ''search_code'',
            req_params = [(''q'', PStr ''tort''), (''per_page'', PInt 5)],
            req_context = None\<rparr> None) None)) ''per_page'' = Some (PInt 5)
   \<and> map_of (req_params \<lparr>req_method = ''search_code'',
                        req_params = [(''q'', PStr ''tort''), (''per_page'', PInt 5)],
                        req_context = None\<rparr>) ''sort'' = None
   \<and> map_of (req_params (transform_github_request
        (apply_default_transformations default_settings
           \<lparr>req_method = ''search_code'',
            req_params = [(''q'', PStr ''tort''), (''per_page'', PInt 5)],
            req_context = None\<rparr> None) None)) ''sort'' \<noteq> None
   \<and> ''sort'' \<in> {''timeout'', ''user_context'', ''per_page'', ''sort''}
   \<and> map_of (req_params (transform_claude_request
        (apply_default_transformations default_settings
           \<lparr>req_method = ''search_code'',
            req_params = [(''q'', PStr ''tort''), (''per_page'', PInt 5)],
            req_context = None\<rparr> None) (Some [(''user_id'', PStr ''u1'')]))) ''per_page''
       = Some (PInt 5)"
proof -
  let ?r = "\<lparr>req_method = ''search_code'',
            req_params = [(''q'', PStr ''tort''), (''per_page'', PInt 5)],
            req_context = None\<rparr>"
  let ?g = "transform_github_request (apply_default_transformations default_settings ?r None) None"
  let ?c = "transform_claude_request (apply_default_transformations default_settings ?r None)
              (Some [(''user_id'', PStr ''u1'')])"
  have a: "map_of (req_params ?r) ''per_page'' = Some (PInt 5)" by simp
  have b: "map_of (req_params ?r) ''sort'' = None" by simp
  have n: "map_of (req_params ?g) ''sort'' \<noteq> None"
    by (simp add: transform_github_request_def apply_default_transformations_def Let_def
        dict_get_def update_conv')
  have ne: "''per_page'' \<noteq> ''user_context''" by simp
  note g1 = request_transforms_keep_params[where provider = transform_github_request
      and r' = ?g and r = ?r and cfg = default_settings and ctx = None and ctx' = None
      and k = "''per_page''" and v = "PInt 5", OF _ refl]
  note g2 = request_transforms_keep_params[where provider = transform_github_request
      and r' = ?g and r = ?r and cfg = default_settings and ctx = None and ctx' = None
      and k = "''sort''" and v = "PInt 5", OF _ refl]
  note c1 = request_transforms_keep_params[where provider = transform_claude_request
      and r' = ?c and r = ?r and cfg = default_settings and ctx = None
      and ctx' = "Some [(''user_id'', PStr ''u1'')]"
      and k = "''per_page''" and v = "PInt 5", OF _ refl]
  have x: "map_of (req_params ?g) ''per_page'' = Some (PInt 5)" using g1 a ne by blast
  have y: "''sort'' \<in> {''timeout'', ''user_context'', ''per_page'', ''sort''}"
    using g2 b n by blast
  have z: "map_of (req_params ?c) ''per_page'' = Some (PInt 5)" using c1 a ne by blast
  show ?thesis using a b n x y z by blast
qed

section \<open>Properties of the security checker\<close>

lemma lower_sensitive_patterns:
  "pattern \<in> set sensitive_param_patterns \<Longrightarrow> lower pattern = pattern"
  by (auto simp: sensitive_param_patterns_def lower_def lower_char_def)

lemma key_issues_sensitive:
  assumes "key_sensitive key" "truthy val"
  shows "key_issues key val p \<noteq> []"
proof -
  from assms(1) obtain pattern where p: "pattern \<in> set sensitive_param_patterns"
    and c: "contains_ci pattern key"
    by (auto simp: key_sensitive_def list_ex_iff)
  have "sublist pattern (lower key)"
    using c lower_sensitive_patterns[OF p] by (simp add: contains_ci_def)
  then show ?thesis using p assms(2) by (auto simp: key_issues_def)
qed

lemma check_dict_sensitive:
  "sensitive_dict d \<Longrightarrow> check_dict d path \<noteq> []"
  "sensitive_nested v \<Longrightarrow> check_nested v path' \<noteq> []"
  by (induction d path and v path' rule: check_dict_check_nested.induct)
     (auto simp: Let_def key_issues_sensitive)

lemma check_request_sensitive:
  "sensitive_dict (req_params r) \<Longrightarrow> check_request cfg py_str r \<noteq> []"
  using check_dict_sensitive(1)[of "req_params r" "[]"]
  by (simp add: check_request_def check_sensitive_data_def)

text \<open>
  Claim C10. A request whose params are sensitive never comes out of \<open>pre_request\<close>:
  the stage raises \<open>ValueError\<close>, so no transformed or tagged request exists. When the
  rate limiter lets the call through, the error is the security rejection, and the
  rate-limit counter has already been incremented by then.
\<close>

theorem pre_request_rejects_sensitive:
  assumes "sensitive_dict (req_params r)"
  shows "(\<exists>msg. fst (pre_request cfg py_str now request_id timestamp c srv r context)
                  = Inl (ValueError msg))
       \<and> (cache_get c now (rate_key srv ''request'') 0 < MCP_REQUEST_RATE_LIMIT cfg \<longrightarrow>
            check_request cfg py_str r \<noteq> []
            \<and> pre_request cfg py_str now request_id timestamp c srv r context
                = (Inl (ValueError (''Security check failed: ''
                                      @ join '', '' (check_request cfg py_str r))),
                   cache_set c now (rate_key srv ''request'')
                     (cache_get c now (rate_key srv ''request'') 0 + 1)
                     (MCP_REQUEST_RATE_WINDOW cfg)))"
proof -
  have lim: "map_of (limits cfg) ''request''
               = Some (MCP_REQUEST_RATE_LIMIT cfg, MCP_REQUEST_RATE_WINDOW cfg)"
    by (simp add: limits_def)
  have ne: "check_request cfg py_str r \<noteq> []" using assms by (rule check_request_sensitive)
  show ?thesis
  proof (cases "cache_get c now (rate_key srv ''request'') 0 < MCP_REQUEST_RATE_LIMIT cfg")
    case True
    have "check_limit cfg now c srv ''request''
            = (True, cache_set c now (rate_key srv ''request'')
                       (cache_get c now (rate_key srv ''request'') 0 + 1)
                       (MCP_REQUEST_RATE_WINDOW cfg))"
      using lim True by (simp add: check_limit_def Let_def)
    then show ?thesis using ne by (simp add: pre_request_def Let_def)
  next
    case False
    then have "check_limit cfg now c srv ''request'' = (False, c)"
      using lim by (simp add: check_limit_def Let_def)
    then show ?thesis using False by (simp add: pre_request_def)
  qed
qed

lemma keywords_sensitive: "sensitive_dict [(''keywords'', PStr ''contract law'')]"
  by code_simp

theorem pre_request_rejects_sensitive_witness:
  "sensitive_dict (req_params \<lparr>req_method = ''search'',
                                req_params = [(''keywords'', PStr ''contract law'')],
                                req_context = None\<rparr>)
   \<and> cache_get Map.empty 0 (rate_key example_server ''request'') 0
        < MCP_REQUEST_RATE_LIMIT default_settings
   \<and> pre_request default_settings (\<lambda>d. ''{'keywords': 'contract law'}'') 0 ''id-1'' (PInt 0)
        Map.empty example_server
        \<lparr>req_method = ''search'', req_params = [(''keywords'', PStr ''contract law'')],
         req_context = None\<rparr> None
      = (Inl (ValueError
               ''Security check failed: Potential sensitive data in parameter: keywords''),
         cache_set Map.empty 0 (rate_key example_server ''request'') 1 60)"
proof -
  let ?r = "\<lparr>req_method = ''search'', req_params = [(''keywords'', PStr ''contract law'')],
         req_context = None\<rparr>"
  let ?repr = "\<lambda>d::pydict. ''{'keywords': 'contract law'}''"
  have s: "sensitive_dict (req_params ?r)" using keywords_sensitive by simp
  have c: "cache_get Map.empty 0 (rate_key example_server ''request'') 0
        < MCP_REQUEST_RATE_LIMIT default_settings"
    by (simp add: cache_get_def default_settings_def)
  have i: "check_request default_settings ?repr ?r
             = [''Potential sensitive data in parameter: keywords'']"
    by code_simp
  have w: "MCP_REQUEST_RATE_WINDOW default_settings = 60" by (simp add: default_settings_def)
  have g: "cache_get Map.empty 0 (rate_key example_server ''request'') 0 = 0"
    by (simp add: cache_get_def)
  from pre_request_rejects_sensitive[OF s, of default_settings ?repr 0 "''id-1''" "PInt 0"
      Map.empty example_server None] c
  have "pre_request default_settings ?repr 0 ''id-1'' (PInt 0) Map.empty example_server ?r None
      = (Inl (ValueError (''Security check failed: ''
                            @ join '', '' (check_request default_settings ?repr ?r))),
         cache_set Map.empty 0 (rate_key example_server ''request'')
           (cache_get Map.empty 0 (rate_key example_server ''request'') 0 + 1)
           (MCP_REQUEST_RATE_WINDOW default_settings))"
    by blast
  then show ?thesis using s c by (simp add: i w g)
qed

section \<open>Properties of the response transformer\<close>

lemma response_transform_default:
  assumes "srv_type srv \<noteq> ''claude''" "srv_type srv \<noteq> ''github''"
  shows "\<exists>resp'. response_transform now_iso srv resp ctx = Inr resp'
           \<and> map_of (metadata_or_empty resp') ''processed_at'' = Some (PStr now_iso)
           \<and> (\<forall>e. resp_error resp = Some e \<longrightarrow>
                  resp_error resp' = Some (if e \<noteq> [] then sanitize_error_message e else e))"
  using assms
  by (auto simp: response_transform_def response_apply_default_transformations_def Let_def
      metadata_or_empty_def update_conv')

text \<open>
  Claim C2, evaluated where it fails. For a backend of type claude or github the
  transform stage returns from the provider-specific transform and never reaches the
  default pass: a failed response comes back exactly as it went in, with no
  \<open>processed_at\<close> in its metadata and its error string unsanitized.
\<close>

theorem response_transform_provider_skips_default:
  assumes "srv_type srv = ''claude'' \<or> srv_type srv = ''github''"
    and "\<not> resp_success resp"
  shows "response_transform now_iso srv resp ctx = Inr resp"
proof (rule disjE[OF assms(1)])
  assume "srv_type srv = ''claude''"
  then show ?thesis using assms(2)
    by (simp add: response_transform_def transform_claude_response_def)
next
  assume a: "srv_type srv = ''github''"
  have "''github'' \<noteq> ''claude''" by simp
  then show ?thesis using assms(2) a
    by (simp add: response_transform_def transform_github_response_def)
qed

theorem response_transform_provider_skips_default_witness:
  "(srv_type (example_server\<lparr>srv_type := ''claude''\<rparr>) = ''claude''
      \<or> srv_type (example_server\<lparr>srv_type := ''claude''\<rparr>) = ''github'')
   \<and> \<not> resp_success \<lparr>resp_success = False, resp_data = PNone,
                       resp_error = Some ''auth failed: token=abc123'',
                       resp_metadata = None\<rparr>
   \<and> response_transform ''2024-01-01T00:00:00'' (example_server\<lparr>srv_type := ''claude''\<rparr>)
        \<lparr>resp_success = False, resp_data = PNone,
         resp_error = Some ''auth failed: token=abc123'', resp_metadata = None\<rparr> None
      = Inr \<lparr>resp_success = False, resp_data = PNone,
             resp_error = Some ''auth failed: token=abc123'', resp_metadata = None\<rparr>"
proof -
  let ?srv = "example_server\<lparr>srv_type := ''claude''\<rparr>"
  let ?resp = "\<lparr>resp_success = False, resp_data = PNone,
         resp_error = Some ''auth failed: token=abc123'', resp_metadata = None\<rparr>"
  have t: "srv_type ?srv = ''claude'' \<or> srv_type ?srv = ''github''" by simp
  have f: "\<not> resp_success ?resp" by simp
  from response_transform_provider_skips_default[OF t f, of "''2024-01-01T00:00:00''" None] t f
  show ?thesis by blast
qed


section \<open>Properties of the validation hooks\<close>

lemma validate_server_name_reports:
  assumes "length name < 3 \<or> length name > 255 \<or> (\<exists>c\<in>set name. \<not> name_char c)"
  shows "validate_server_name name \<noteq> []"
  using assms
  by (auto simp: validate_server_name_def name_pattern_matches_def list_all_iff)

lemma name_char_tab: "name_char (CHR 0x09)"
  by (simp add: name_char_def is_space_def)

lemma map_of_update_if:
  "k \<noteq> k' \<Longrightarrow> map_of (if c then AList.update k' v al else al) k = map_of al k"
  by (simp add: update_conv')

lemma map_of_update_if_same:
  "map_of (if c then AList.update k v al else al) k = (if c then Some v else map_of al k)"
  by (simp add: update_conv')

lemma validate_server_configuration_name:
  "map_of (validate_server_configuration urlparse cfg validate_configuration_size
             validate_authentication validate_provider_config srv) ''name''
     = (if validate_server_name (srv_name srv) \<noteq> []
        then Some (validate_server_name (srv_name srv)) else None)"
proof -
  have ne: "''name'' \<noteq> ''endpoint''" "''name'' \<noteq> ''configuration''"
    "''name'' \<noteq> ''authentication''" "''name'' \<noteq> ''provider''"
    by simp_all
  have "map_of (if validate_server_name (srv_name srv) \<noteq> []
                then AList.update ''name'' (validate_server_name (srv_name srv)) [] else [])
          ''name''
        = (if validate_server_name (srv_name srv) \<noteq> []
           then Some (validate_server_name (srv_name srv)) else None)"
    by (simp only: map_of_update_if_same map_of.simps)
  then show ?thesis
    by (simp add: validate_server_configuration_def Let_def map_of_update_if[OF ne(1)]
        map_of_update_if[OF ne(2)] map_of_update_if[OF ne(3)] map_of_update_if[OF ne(4)])
qed

text \<open>
  Claim C6, evaluated where it fails. The name \<open>a<TAB>b\<close> contains a tab, which is
  outside \<open>[A-Za-z0-9 _-]\<close>, but \<open>\s\<close> in the pattern accepts every whitespace
  character: the name passes, and record validation has no entry under \<open>name\<close>.
\<close>

theorem validate_server_name_accepts_tab:
  "validate_server_name [CHR ''a'', CHR 0x09, CHR ''b''] = []
   \<and> map_of (validate_server_configuration urlparse cfg validate_configuration_size
               validate_authentication validate_provider_config
               (srv\<lparr>srv_name := [CHR ''a'', CHR 0x09, CHR ''b'']\<rparr>)) ''name'' = None"
proof -
  have a: "name_char CHR ''a''" "name_char CHR ''b''" by (simp_all add: name_char_def)
  have v: "validate_server_name [CHR ''a'', CHR 0x09, CHR ''b''] = []"
    using a name_char_tab by (simp add: validate_server_name_def name_pattern_matches_def)
  show ?thesis using v by (simp add: validate_server_configuration_name)
qed

theorem validate_server_name_accepts_tab_witness:
  "validate_server_name [CHR ''a'', CHR 0x09, CHR ''b''] = []
   \<and> map_of (validate_server_configuration (\<lambda>u. Inl ''unused'') default_settings
               (\<lambda>s. []) (\<lambda>s. []) (\<lambda>s. [])
               (example_server\<lparr>srv_name := [CHR ''a'', CHR 0x09, CHR ''b'']\<rparr>)) ''name'' = None"
  by (rule validate_server_name_accepts_tab)

lemma validate_endpoint_blocked:
  assumes "urlparse endpoint = Inr parsed"
    and "domain \<in> set (MCP_BLOCKED_DOMAINS cfg)"
    and "suffix domain (url_netloc parsed)"
  shows "validate_endpoint urlparse cfg endpoint \<noteq> []"
    and "endpoint \<noteq> [] \<Longrightarrow>
           ''Endpoint domain is blocked: '' @ url_netloc parsed
             \<in> set (validate_endpoint urlparse cfg endpoint)"
proof -
  have b: "MCP_BLOCKED_DOMAINS cfg \<noteq> []
           \<and> list_ex (\<lambda>domain. suffix domain (url_netloc parsed)) (MCP_BLOCKED_DOMAINS cfg)"
    using assms(2,3) by (auto simp: list_ex_iff)
  show "validate_endpoint urlparse cfg endpoint \<noteq> []"
    using assms(1) b by (simp add: validate_endpoint_def)
  assume "endpoint \<noteq> []"
  then show "''Endpoint domain is blocked: '' @ url_netloc parsed
             \<in> set (validate_endpoint urlparse cfg endpoint)"
    using assms(1) b by (simp add: validate_endpoint_def)
qed

lemma validate_server_configuration_endpoint:
  assumes "validate_endpoint urlparse cfg (srv_endpoint srv) \<noteq> []"
  shows "map_of (validate_server_configuration urlparse cfg validate_configuration_size
                   validate_authentication validate_provider_config srv) ''endpoint''
           = Some (validate_endpoint urlparse cfg (srv_endpoint srv))"
proof -
  have ne: "''endpoint'' \<noteq> ''configuration''" "''endpoint'' \<noteq> ''authentication''"
    "''endpoint'' \<noteq> ''provider''"
    by simp_all
  show ?thesis
    using assms
    by (simp add: validate_server_configuration_def Let_def map_of_update_if[OF ne(1)]
        map_of_update_if[OF ne(2)] map_of_update_if[OF ne(3)] map_of_update_if_same)
qed

text \<open>
  What the code does check: when the netloc that \<open>urlparse\<close> finds in the endpoint ends
  with an entry of the block-list, record validation reports problems under \<open>endpoint\<close>,
  the blocked-domain message among them for a non-empty endpoint, whatever the allow-list
  contains.
\<close>

lemma validate_endpoint_block_list:
  assumes "urlparse (srv_endpoint srv) = Inr parsed"
    and "domain \<in> set (MCP_BLOCKED_DOMAINS cfg)"
    and "suffix domain (url_netloc parsed)"
  shows "\<exists>errs. map_of (validate_server_configuration urlparse cfg validate_configuration_size
                          validate_authentication validate_provider_config srv) ''endpoint''
                  = Some errs
              \<and> errs \<noteq> []
              \<and> (srv_endpoint srv \<noteq> [] \<longrightarrow>
                   ''Endpoint domain is blocked: '' @ url_netloc parsed \<in> set errs)"
proof -
  let ?errs = "validate_endpoint urlparse cfg (srv_endpoint srv)"
  note b = validate_endpoint_blocked[where urlparse = urlparse
      and endpoint = "srv_endpoint srv", OF assms]
  have "map_of (validate_server_configuration urlparse cfg validate_configuration_size
                  validate_authentication validate_provider_config srv) ''endpoint''
          = Some ?errs"
    using b(1) by (rule validate_server_configuration_endpoint)
  then show ?thesis using b by blast
qed

lemma validate_server_configuration_no_endpoint:
  assumes "validate_endpoint urlparse cfg (srv_endpoint srv) = []"
  shows "map_of (validate_server_configuration urlparse cfg validate_configuration_size
                   validate_authentication validate_provider_config srv) ''endpoint''
           = None"
proof -
  have ne: "''endpoint'' \<noteq> ''configuration''" "''endpoint'' \<noteq> ''authentication''"
    "''endpoint'' \<noteq> ''provider''" "''endpoint'' \<noteq> ''name''"
    by simp_all
  show ?thesis
    using assms
    by (simp add: validate_server_configuration_def Let_def map_of_update_if[OF ne(1)]
        map_of_update_if[OF ne(2)] map_of_update_if[OF ne(3)] map_of_update_if[OF ne(4)])
qed

lemma suffix_port: "\<not> suffix ''badsite.com'' ''badsite.com:8080''"
  by code_simp

text \<open>
  Claim C7, evaluated where it fails. The endpoint \<open>https://badsite.com:8080/v1\<close> has the
  host \<open>badsite.com\<close>, which matches the block-list entry \<open>badsite.com\<close>. The validator
  tests the netloc \<open>badsite.com:8080\<close> instead, which does not end with the entry: with
  no allow-list configured the endpoint passes, and record validation has no entry under
  \<open>endpoint\<close>.
\<close>

theorem validate_endpoint_port_passes_block_list:
  "urlparse_port ''https://badsite.com:8080/v1''
     = Inr \<lparr>url_scheme = ''https'', url_netloc = ''badsite.com:8080'',
            url_hostname = ''badsite.com''\<rparr>
   \<and> suffix ''badsite.com'' (url_hostname \<lparr>url_scheme = ''https'',
                                             url_netloc = ''badsite.com:8080'',
                                             url_hostname = ''badsite.com''\<rparr>)
   \<and> validate_endpoint urlparse_port
        (cfg\<lparr>MCP_ALLOWED_DOMAINS := [], MCP_BLOCKED_DOMAINS := [''badsite.com'']\<rparr>)
        ''https://badsite.com:8080/v1'' = []
   \<and> map_of (validate_server_configuration urlparse_port
               (cfg\<lparr>MCP_ALLOWED_DOMAINS := [], MCP_BLOCKED_DOMAINS := [''badsite.com'']\<rparr>)
               validate_configuration_size validate_authentication validate_provider_config
               (srv\<lparr>srv_endpoint := ''https://badsite.com:8080/v1''\<rparr>)) ''endpoint'' = None"
proof -
  let ?cfg = "cfg\<lparr>MCP_ALLOWED_DOMAINS := [], MCP_BLOCKED_DOMAINS := [''badsite.com'']\<rparr>"
  have p: "urlparse_port ''https://badsite.com:8080/v1''
     = Inr \<lparr>url_scheme = ''https'', url_netloc = ''badsite.com:8080'',
            url_hostname = ''badsite.com''\<rparr>"
    by (simp add: urlparse_port_def)
  have v: "validate_endpoint urlparse_port ?cfg ''https://badsite.com:8080/v1'' = []"
    using suffix_port by (simp add: validate_endpoint_def p)
  have "validate_endpoint urlparse_port ?cfg
          (srv_endpoint (srv\<lparr>srv_endpoint := ''https://badsite.com:8080/v1''\<rparr>)) = []"
    using v by simp
  then have m: "map_of (validate_server_configuration urlparse_port ?cfg
               validate_configuration_size validate_authentication validate_provider_config
               (srv\<lparr>srv_endpoint := ''https://badsite.com:8080/v1''\<rparr>)) ''endpoint'' = None"
    by (rule validate_server_configuration_no_endpoint)
  show ?thesis using p v m by simp
qed

theorem validate_endpoint_port_passes_block_list_witness:
  "urlparse_port ''https://badsite.com:8080/v1''
     = Inr \<lparr>url_scheme = ''https'', url_netloc = ''badsite.com:8080'',
            url_hostname = ''badsite.com''\<rparr>
   \<and> suffix ''badsite.com'' (url_hostname \<lparr>url_scheme = ''https'',
                                             url_netloc = ''badsite.com:8080'',
                                             url_hostname = ''badsite.com''\<rparr>)
   \<and> validate_endpoint urlparse_port
        (default_settings\<lparr>MCP_ALLOWED_DOMAINS := [], MCP_BLOCKED_DOMAINS := [''badsite.com'']\<rparr>)
        ''https://badsite.com:8080/v1'' = []
   \<and> map_of (validate_server_configuration urlparse_port
               (default_settings\<lparr>MCP_ALLOWED_DOMAINS := [],
                                 MCP_BLOCKED_DOMAINS := [''badsite.com'']\<rparr>)
               (\<lambda>s. []) (\<lambda>s. []) (\<lambda>s. [])
               (example_server\<lparr>srv_endpoint := ''https://badsite.com:8080/v1''\<rparr>))
       ''endpoint'' = None"
  by (rule validate_endpoint_port_passes_block_list)

section \<open>Properties of the provider registry\<close>

lemma provider_infos_keys:
  "provider_infos ps acc = Inr l \<Longrightarrow> fst ` set l = fst ` set acc \<union> fst ` set ps"
proof (induction ps arbitrary: acc)
  case Nil
  then show ?case by simp
next
  case (Cons p ps)
  obtain name pc where p: "p = (name, pc)" by (cases p)
  from Cons.prems p obtain info where i: "provider_info pc = Inr info"
    and r: "provider_infos ps (AList.update name info acc) = Inr l"
    by (auto split: sum.splits)
  from Cons.IH[OF r] show ?case using p by (auto simp: dom_update)
qed

text \<open>
  Claim C8, as amended. An implementation that is not a subclass of \<open>BaseMCPProvider\<close>
  is refused with a \<open>ValueError\<close> and the registry stays as it was: \<open>list_providers\<close>
  returns what it would have returned without the call, and in an initialized registry
  that did not have the name, the name is not listed.
\<close>

theorem register_provider_rejects_non_subclass:
  assumes "\<not> pc_subclass_of_base pc"
  shows "register_provider reg name pc
           = (Inl (ValueError (''Provider '' @ name @ '' must inherit from BaseMCPProvider'')),
              reg)
       \<and> list_providers import_builtin custom (snd (register_provider reg name pc))
           = list_providers import_builtin custom reg
       \<and> (initialized reg \<and> name \<notin> fst ` set (providers reg) \<longrightarrow>
            (\<forall>l. fst (list_providers import_builtin custom (snd (register_provider reg name pc)))
                   = Inr l \<longrightarrow> name \<notin> fst ` set l))"
proof -
  have r: "register_provider reg name pc
           = (Inl (ValueError (''Provider '' @ name @ '' must inherit from BaseMCPProvider'')),
              reg)"
    using assms by (simp add: register_provider_def)
  have k: "name \<notin> fst ` set l"
    if "initialized reg" "name \<notin> fst ` set (providers reg)"
      "fst (list_providers import_builtin custom reg) = Inr l" for l
  proof -
    from that(1,3) have "provider_infos (providers reg) [] = Inr l"
      by (simp add: list_providers_def)
    from provider_infos_keys[OF this] that(2) show ?thesis by simp
  qed
  show ?thesis using r k by simp
qed

theorem register_provider_rejects_non_subclass_witness:
  "\<not> pc_subclass_of_base invalid_provider
   \<and> register_provider \<lparr>providers = [(''mock'', mock_provider)], initialized = True\<rparr>
         ''invalid'' invalid_provider
       = (Inl (ValueError ''Provider invalid must inherit from BaseMCPProvider''),
          \<lparr>providers = [(''mock'', mock_provider)], initialized = True\<rparr>)
   \<and> initialized \<lparr>providers = [(''mock'', mock_provider)], initialized = True\<rparr>
   \<and> ''invalid'' \<notin> fst ` set (providers \<lparr>providers = [(''mock'', mock_provider)],
                                             initialized = True\<rparr>)
   \<and> fst (list_providers (\<lambda>n. None) []
             (snd (register_provider \<lparr>providers = [(''mock'', mock_provider)], initialized = True\<rparr>
                     ''invalid'' invalid_provider)))
       = Inr [(''mock'', [(''name'', PStr ''Mock Provider''),
                         (''description'', PStr ''A mock provider for testing''),
                         (''version'', PStr ''1.0.0'')])]
   \<and> ''invalid'' \<notin> fst ` set [(''mock'', [(''name'', PStr ''Mock Provider''),
                         (''description'', PStr ''A mock provider for testing''),
                         (''version'', PStr ''1.0.0'')])]"
proof -
  let ?reg = "\<lparr>providers = [(''mock'', mock_provider)], initialized = True\<rparr>"
  let ?l = "[(''mock'', [(''name'', PStr ''Mock Provider''),
                         (''description'', PStr ''A mock provider for testing''),
                         (''version'', PStr ''1.0.0'')])]"
  have n: "\<not> pc_subclass_of_base invalid_provider" by (simp add: invalid_provider_def)
  note t = register_provider_rejects_non_subclass[OF n, of ?reg "''invalid''" "\<lambda>n. None" "[]"]
  have i: "provider_info mock_provider
             = Inr [(''name'', PStr ''Mock Provider''),
                    (''description'', PStr ''A mock provider for testing''),
                    (''version'', PStr ''1.0.0'')]"
    by (simp add: provider_info_def get_name_def get_description_def get_version_def
        mock_provider_def)
  have l0: "fst (list_providers (\<lambda>n. None) [] ?reg) = Inr ?l"
    by (simp add: list_providers_def i)
  have r: "register_provider ?reg ''invalid'' invalid_provider
       = (Inl (ValueError ''Provider invalid must inherit from BaseMCPProvider''), ?reg)"
    using t by simp
  have l: "fst (list_providers (\<lambda>n. None) [] (snd (register_provider ?reg ''invalid'' invalid_provider)))
             = Inr ?l"
    using t l0 by simp
  have init: "initialized ?reg" by simp
  have notin: "''invalid'' \<notin> fst ` set (providers ?reg)" by simp
  have k: "''invalid'' \<notin> fst ` set ?l"
    using t init notin l by blast
  show ?thesis using n r init notin l k by blast
qed

text \<open>
  Claim C8 as stated fails: a subclass of \<open>BaseMCPProvider\<close> that implements none of
  the contract's methods is registered, and \<open>list_providers\<close> lists it.
\<close>

theorem register_provider_accepts_incomplete_subclass:
  "\<not> implements_contract incomplete_provider
   \<and> register_provider \<lparr>providers = [], initialized = False\<rparr> ''partial'' incomplete_provider
       = (Inr (), \<lparr>providers = [(''partial'', incomplete_provider)], initialized = False\<rparr>)
   \<and> fst (list_providers (\<lambda>n. None) []
             (snd (register_provider \<lparr>providers = [], initialized = False\<rparr> ''partial''
                     incomplete_provider)))
       = Inr [(''partial'', [(''name'', PNone), (''description'', PNone),
                            (''version'', PStr ''1.0.0'')])]"
proof -
  have a: "\<not> implements_contract incomplete_provider"
    by (simp add: implements_contract_def provider_contract_def incomplete_provider_def)
  have r: "register_provider \<lparr>providers = [], initialized = False\<rparr> ''partial'' incomplete_provider
       = (Inr (), \<lparr>providers = [(''partial'', incomplete_provider)], initialized = False\<rparr>)"
    by (simp add: register_provider_def incomplete_provider_def)
  have i: "provider_info incomplete_provider
             = Inr [(''name'', PNone), (''description'', PNone), (''version'', PStr ''1.0.0'')]"
    by (simp add: provider_info_def get_name_def get_description_def get_version_def
        incomplete_provider_def)
  have l: "fst (list_providers (\<lambda>n. None) []
                  \<lparr>providers = [(''partial'', incomplete_provider)], initialized = False\<rparr>)
       = Inr [(''partial'', [(''name'', PNone), (''description'', PNone),
                            (''version'', PStr ''1.0.0'')])]"
    by (simp add: list_providers_def initialize_def builtin_providers_def i)
  show ?thesis using a r l by simp
qed

end
